theory Spec2Isabelle
  imports Main "HOL-Library.Sublist"
begin

section \<open>Python values used by the ingestion stage\<close>

text \<open>
  Strings are \<^typ>\<open>string\<close>; the development covers ASCII text, which is what the
  quarter labels, column names and links of the program are made of.  Python's
  \<^verbatim>\<open>a in b\<close> on strings is \<^const>\<open>sublist\<close>, \<^verbatim>\<open>startswith\<close> is
  \<^const>\<open>prefix\<close> and \<^verbatim>\<open>endswith\<close> is \<^const>\<open>suffix\<close>.

  Exceptions are values.  \<open>HTTPError\<close> is what \<^verbatim>\<open>raise_for_status\<close> raises;
  \<open>RequestFailure\<close> stands for the other subclasses of
  \<^verbatim>\<open>requests.exceptions.RequestException\<close> (connection errors, timeouts).
  \<open>RetriesExhausted n\<close> is the plain \<^verbatim>\<open>Exception\<close> with the message
  \<^verbatim>\<open>Failed to complete after n retries.\<close>, \<open>AnalysisException\<close> is Spark's, and
  \<open>OtherError\<close> is any other exception of a library.
\<close>

datatype exn =
    RequestFailure string
  | HTTPError nat
  | ValueError string
  | OSError string
  | RetriesExhausted nat
  | AnalysisException string
  | OtherError string

text \<open>
  \<^verbatim>\<open>except requests.exceptions.RequestException\<close>: in the \<^verbatim>\<open>requests\<close> library
  \<^verbatim>\<open>HTTPError\<close> is a subclass of \<^verbatim>\<open>RequestException\<close>.
\<close>

fun is_RequestException :: "exn \<Rightarrow> bool" where
  "is_RequestException (RequestFailure m) = True"
| "is_RequestException (HTTPError code) = True"
| "is_RequestException e = False"

definition is_digit :: "char \<Rightarrow> bool" where
  "is_digit c = (c \<in> set ''0123456789'')"

definition digit_val :: "char \<Rightarrow> int" where
  "digit_val c = int (of_char c) - 48"

text \<open>\<^verbatim>\<open>int(s)\<close> on a string of decimal digits.\<close>

definition py_int :: "string \<Rightarrow> int" where
  "py_int s = foldl (\<lambda>a c. 10 * a + digit_val c) 0 s"

section \<open>quarter\_to\_tuple\<close>

text \<open>
  \<^verbatim>\<open>re.match(r'(\d{4}) (\d{1,2})(st|nd|rd|th) quarter', quarter_str)\<close> anchors at the
  start of the string only.  The greedy \<^verbatim>\<open>\d{1,2}\<close> is tried with two digits first
  and, when the rest of the pattern fails there, with one.
\<close>

definition ordinal_suffixes :: "string list" where
  "ordinal_suffixes = [''st'', ''nd'', ''rd'', ''th'']"

definition quarter_word :: string where
  "quarter_word = '' quarter''"

definition match_suffix_quarter :: "string \<Rightarrow> bool" where
  "match_suffix_quarter r = list_ex (\<lambda>suf. prefix (suf @ quarter_word) r) ordinal_suffixes"

definition match_quarter_digits :: "nat \<Rightarrow> string \<Rightarrow> string option" where
  "match_quarter_digits k r =
     (if k \<le> length r \<and> list_all is_digit (take k r) \<and> match_suffix_quarter (drop k r)
      then Some (take k r) else None)"

definition re_match_quarter :: "string \<Rightarrow> (string \<times> string) option" where
  "re_match_quarter s =
     (if 5 \<le> length s \<and> list_all is_digit (take 4 s) \<and> s ! 4 = CHR '' ''
      then (case match_quarter_digits 2 (drop 5 s) of
              Some q \<Rightarrow> Some (take 4 s, q)
            | None \<Rightarrow> (case match_quarter_digits 1 (drop 5 s) of
                         Some q \<Rightarrow> Some (take 4 s, q)
                       | None \<Rightarrow> None))
      else None)"

definition quarter_to_tuple :: "string \<Rightarrow> exn + (int \<times> int)" where
  "quarter_to_tuple quarter_str =
     (case re_match_quarter quarter_str of
        Some (y, q) \<Rightarrow> Inr (py_int y, py_int q)
      | None \<Rightarrow> Inl (ValueError (''Invalid quarter format: '' @ quarter_str)))"

text \<open>
  The set of labels as the specification words it: four digits, a space, a quarter
  number from 1 to 4 with an ordinal suffix, and the word \<open>quarter\<close>, nothing else.
\<close>

definition spec_valid_label :: "string \<Rightarrow> bool" where
  "spec_valid_label s =
     (4 \<le> length s \<and> list_all is_digit (take 4 s) \<and>
      drop 4 s \<in> set (concat (map (\<lambda>n. map (\<lambda>suf. '' '' @ n @ suf @ quarter_word)
                                        ordinal_suffixes)
                               [''1'', ''2'', ''3'', ''4''])))"

section \<open>Python string operations\<close>

text \<open>
  \<^verbatim>\<open>str.strip()\<close> removes leading and trailing whitespace; these are the ASCII
  characters for which \<^verbatim>\<open>str.isspace\<close> holds.
\<close>

definition is_space :: "char \<Rightarrow> bool" where
  "is_space c = (c \<in> set [CHR '' '', CHR 0x09, CHR 0x0A, CHR 0x0B, CHR 0x0C, CHR 0x0D,
                            CHR 0x1C, CHR 0x1D, CHR 0x1E, CHR 0x1F])"

definition py_strip :: "string \<Rightarrow> string" where
  "py_strip s = rev (dropWhile is_space (rev (dropWhile is_space s)))"

text \<open>\<^verbatim>\<open>s.replace(c, d)\<close> for single characters \<open>c\<close> and \<open>d\<close>.\<close>

definition replace_char :: "char \<Rightarrow> char \<Rightarrow> string \<Rightarrow> string" where
  "replace_char c d s = map (\<lambda>x. if x = c then d else x) s"

text \<open>\<^verbatim>\<open>s.replace('_\n', ' ')\<close>: non-overlapping occurrences, from the left.\<close>

fun replace_underscore_newline :: "string \<Rightarrow> string" where
  "replace_underscore_newline (a # b # s) =
     (if a = CHR ''_'' \<and> b = CHR 0x0A then CHR '' '' # replace_underscore_newline s
      else a # replace_underscore_newline (b # s))"
| "replace_underscore_newline s = s"

text \<open>\<^verbatim>\<open>s.split(c)\<close> with an explicit one-character separator keeps empty fields.\<close>

fun py_split :: "char \<Rightarrow> string \<Rightarrow> string list" where
  "py_split c [] = [[]]"
| "py_split c (x # xs) =
     (if x = c then [] # py_split c xs
      else (x # hd (py_split c xs)) # tl (py_split c xs))"

definition lower_char :: "char \<Rightarrow> char" where
  "lower_char c =
     (if 65 \<le> (of_char c :: nat) \<and> (of_char c :: nat) \<le> 90
      then char_of ((of_char c :: nat) + 32) else c)"

definition py_lower :: "string \<Rightarrow> string" where
  "py_lower s = map lower_char s"

definition py_isdigit :: "string \<Rightarrow> bool" where
  "py_isdigit s = (s \<noteq> [] \<and> list_all is_digit s)"

section \<open>The world of the ingestion stage\<close>

text \<open>
  What the program reads and changes outside itself: the HTTP server, the local file
  system, DBFS and the clock it sleeps on.  The answer of the \<open>n\<close>-th GET request of the
  run to a URL is given by \<open>http\<close>; \<open>requested\<close> logs the requests made so far and
  \<open>slept\<close> the arguments of \<^verbatim>\<open>time.sleep\<close>, both in order.  File contents are
  byte strings.
\<close>

datatype http_result = NetworkFailure string | Response nat string

record world =
  http :: "nat \<Rightarrow> string \<Rightarrow> http_result"
  requested :: "string list"
  local_fs :: "string \<Rightarrow> string option"
  dbfs :: "string \<Rightarrow> string option"
  dbfs_writable :: "string \<Rightarrow> bool"
  slept :: "nat list"

text \<open>\<^verbatim>\<open>requests.get(url, ...)\<close>\<close>

definition requests_get :: "string \<Rightarrow> world \<Rightarrow> http_result \<times> world" where
  "requests_get url w =
     (http w (length (requested w)) url, w\<lparr>requested := requested w @ [url]\<rparr>)"

text \<open>\<^verbatim>\<open>os.remove(path)\<close> raises when there is no such file.\<close>

definition os_remove :: "string \<Rightarrow> world \<Rightarrow> (exn + unit) \<times> world" where
  "os_remove path w =
     (case local_fs w path of
        None \<Rightarrow> (Inl (OSError (''No such file or directory: '' @ path)), w)
      | Some content \<Rightarrow> (Inr (), w\<lparr>local_fs := (local_fs w)(path := None)\<rparr>))"

text \<open>
  The libraries that decode what was downloaded are parameters: the HTML parser gives the
  text nodes of the page and the \<open>href\<close> targets of its \<open>a\<close> elements, both in document
  order; \<^verbatim>\<open>pd.read_excel(..., sheet_name='Quarter', header=4)\<close> gives the column
  headers of the sheet, or raises.
\<close>

record page =
  texts :: "string list"
  hrefs :: "string list"

record decoders =
  parse_html :: "string \<Rightarrow> page"
  read_excel_columns :: "string \<Rightarrow> exn + string list"

section \<open>retry\_request and download\_excel\_file\<close>

text \<open>
  The wrapper of the decorator, as a loop over \<open>retries\<close> and \<open>current_delay\<close>.  Only a
  \<^verbatim>\<open>RequestException\<close> is caught; any other exception of \<open>func\<close> leaves the loop.
\<close>

function retry_loop ::
  "nat \<Rightarrow> nat \<Rightarrow> (world \<Rightarrow> (exn + 'a) \<times> world) \<Rightarrow> nat \<Rightarrow> nat \<Rightarrow> world \<Rightarrow> (exn + 'a) \<times> world"
where
  "retry_loop max_retries backoff func retries current_delay w =
     (if retries < max_retries then
        (case func w of
           (Inr v, w') \<Rightarrow> (Inr v, w')
         | (Inl e, w') \<Rightarrow>
             if is_RequestException e then
               retry_loop max_retries backoff func (retries + 1) (current_delay * backoff)
                 (w'\<lparr>slept := slept w' @ [current_delay]\<rparr>)
             else (Inl e, w'))
      else (Inl (RetriesExhausted max_retries), w))"
  by pat_completeness auto
termination
  by (relation "measure (\<lambda>(max_retries, backoff, func, retries, current_delay, w).
                   max_retries - retries)") auto

definition retry_request ::
  "nat \<Rightarrow> nat \<Rightarrow> nat \<Rightarrow> (world \<Rightarrow> (exn + 'a) \<times> world) \<Rightarrow> world \<Rightarrow> (exn + 'a) \<times> world"
where
  "retry_request max_retries delay backoff func w =
     retry_loop max_retries backoff func 0 delay w"

text \<open>
  The body of \<open>download_excel_file\<close>.  Its two \<^verbatim>\<open>except\<close> clauses log and re-raise,
  so every exception leaves the body as it is.
\<close>

definition download_excel_file_body ::
  "string \<Rightarrow> string \<Rightarrow> string \<Rightarrow> world \<Rightarrow> (exn + unit) \<times> world"
where
  "download_excel_file_body url dbfs_save_path file_name w =
     (let temp_save_path = ''/tmp/'' @ file_name in
      case requests_get url w of
        (NetworkFailure m, w1) \<Rightarrow> (Inl (RequestFailure m), w1)
      | (Response status content, w1) \<Rightarrow>
          if 400 \<le> status \<and> status < 600 then (Inl (HTTPError status), w1)
          else
            (let w2 = w1\<lparr>local_fs := (local_fs w1)(temp_save_path \<mapsto> content)\<rparr>;
                 final_dbfs_path = dbfs_save_path @ ''/'' @ file_name in
             if dbfs_writable w2 final_dbfs_path
             then (Inr (), w2\<lparr>dbfs := (dbfs w2)(final_dbfs_path \<mapsto> content)\<rparr>)
             else (Inl (OtherError ''dbutils.fs.cp''), w2)))"

definition download_excel_file ::
  "string \<Rightarrow> string \<Rightarrow> string \<Rightarrow> world \<Rightarrow> (exn + unit) \<times> world"
where
  "download_excel_file url dbfs_save_path file_name =
     retry_request 3 5 2 (download_excel_file_body url dbfs_save_path file_name)"

text \<open>
  An attempt ends in a \<^verbatim>\<open>RequestException\<close> when the connection fails or when the
  status of the response is an error status.
\<close>

fun request_fails :: "http_result \<Rightarrow> bool" where
  "request_fails (NetworkFailure m) = True"
| "request_fails (Response status content) = (400 \<le> status \<and> status < 600)"

text \<open>
  Worlds for the examples: a server that answers 404 to everything, one that is
  unreachable, one that serves a workbook, and the last with a DBFS that refuses writes.
\<close>

definition world_404 :: world where
  "world_404 =
     \<lparr>http = (\<lambda>n url. Response 404 ''Not Found''), requested = [],
      local_fs = (\<lambda>path. None), dbfs = (\<lambda>path. None),
      dbfs_writable = (\<lambda>path. True), slept = []\<rparr>"

definition world_offline :: world where
  "world_offline =
     \<lparr>http = (\<lambda>n url. NetworkFailure ''connection refused''), requested = [],
      local_fs = (\<lambda>path. None), dbfs = (\<lambda>path. None),
      dbfs_writable = (\<lambda>path. True), slept = []\<rparr>"

definition world_serving :: "string \<Rightarrow> world" where
  "world_serving content =
     \<lparr>http = (\<lambda>n url. Response 200 content), requested = [],
      local_fs = (\<lambda>path. None), dbfs = (\<lambda>path. None),
      dbfs_writable = (\<lambda>path. True), slept = []\<rparr>"

definition world_readonly :: world where
  "world_readonly =
     \<lparr>http = (\<lambda>n url. Response 200 ''workbook''), requested = [],
      local_fs = (\<lambda>path. None), dbfs = (\<lambda>path. None),
      dbfs_writable = (\<lambda>path. False), slept = []\<rparr>"

section \<open>check\_excel\_for\_latest\_quarter\<close>

text \<open>Comparison of the tuples \<open>(year, quarter)\<close>, as Python compares tuples.\<close>

fun tuple_gt :: "int \<times> int \<Rightarrow> int \<times> int \<Rightarrow> bool" where
  "tuple_gt (y1, q1) (y2, q2) = (y1 > y2 \<or> (y1 = y2 \<and> q1 > q2))"

text \<open>
  \<^verbatim>\<open>re.sub(r'\s*\[.*\]', '', x)\<close>.  An occurrence starting at the head of the string
  is a run of whitespace, an opening bracket and everything up to the last closing
  bracket before the end of the line; \<open>bracket_match\<close> gives what follows it.  The
  substitution removes the occurrences from left to right.
\<close>

definition bracket_match :: "string \<Rightarrow> string option" where
  "bracket_match s =
     (case dropWhile is_space s of
        [] \<Rightarrow> None
      | c # r \<Rightarrow>
          if c = CHR ''['' then
            (let line = takeWhile (\<lambda>x. x \<noteq> CHR 0x0A) r in
             if CHR '']'' \<in> set line
             then Some (drop (length line - length (takeWhile (\<lambda>x. x \<noteq> CHR '']'') (rev line))) r)
             else None)
          else None)"

function re_sub_brackets :: "string \<Rightarrow> string" where
  "re_sub_brackets [] = []"
| "re_sub_brackets (c # s) =
     (case bracket_match (c # s) of
        Some rest \<Rightarrow> re_sub_brackets rest
      | None \<Rightarrow> c # re_sub_brackets s)"
  by pat_completeness auto
termination
proof (relation "measure length")
  show "wf (measure length)" by simp
next
  fix c :: char and s rest :: string
  assume m: "bracket_match (c # s) = Some rest"
  then obtain r where d: "dropWhile is_space (c # s) = CHR ''['' # r"
    by (auto simp: bracket_match_def split: list.splits if_splits)
  from m d have "length rest \<le> length r"
    by (auto simp: bracket_match_def Let_def split: if_splits)
  moreover have "length (dropWhile is_space (c # s)) \<le> length (c # s)"
    by (rule length_dropWhile_le)
  ultimately have "length rest < length (c # s)" using d by simp
  then show "(rest, c # s) \<in> measure length" by simp
next
  fix c :: char and s :: string
  show "(s, c # s) \<in> measure length" by simp
qed

text \<open>
  \<^verbatim>\<open>max(xs, key=f)\<close>: the first element whose key is the greatest; raises on an empty
  list and when the key function raises.
\<close>

fun max_loop :: "('a \<Rightarrow> exn + int \<times> int) \<Rightarrow> 'a \<Rightarrow> int \<times> int \<Rightarrow> 'a list \<Rightarrow> exn + 'a" where
  "max_loop key m mk [] = Inr m"
| "max_loop key m mk (x # xs) =
     (case key x of
        Inl e \<Rightarrow> Inl e
      | Inr k \<Rightarrow> if tuple_gt k mk then max_loop key x k xs else max_loop key m mk xs)"

fun py_max_key :: "('a \<Rightarrow> exn + int \<times> int) \<Rightarrow> 'a list \<Rightarrow> exn + 'a" where
  "py_max_key key [] = Inl (ValueError ''max() arg is an empty sequence'')"
| "py_max_key key (x # xs) =
     (case key x of Inl e \<Rightarrow> Inl e | Inr k \<Rightarrow> max_loop key x k xs)"

text \<open>
  Lines 111 to 117: the download for inspection, the read of the \<open>Quarter\<close> sheet from the
  scratch path and the normalisation of the headers.
\<close>

definition load_quarter_headers ::
  "decoders \<Rightarrow> string \<Rightarrow> string \<Rightarrow> world \<Rightarrow> (exn + string list) \<times> world"
where
  "load_quarter_headers lib excel_url file_name w =
     (let temp_excel_path = ''/tmp/'' @ file_name in
      case download_excel_file excel_url temp_excel_path file_name w of
        (Inl e, w1) \<Rightarrow> (Inl e, w1)
      | (Inr u, w1) \<Rightarrow>
          (case local_fs w1 temp_excel_path of
             None \<Rightarrow> (Inl (OSError (''No such file or directory: '' @ temp_excel_path)), w1)
           | Some content \<Rightarrow>
               (case read_excel_columns lib content of
                  Inl e \<Rightarrow> (Inl e, w1)
                | Inr cols \<Rightarrow>
                    (Inr (map (\<lambda>c. replace_char (CHR 0x0A) CHR '' '' (py_strip c)) cols), w1))))"

text \<open>
  Line 122.  The pattern \<^verbatim>\<open>^\d{4} \d{1,2}(st|nd|rd|th) quarter\<close> accepts the strings
  that the pattern of \<open>quarter_to_tuple\<close> accepts; only the groups differ.
\<close>

definition quarter_columns :: "string list \<Rightarrow> string list" where
  "quarter_columns cols = filter (\<lambda>col. re_match_quarter col \<noteq> None) cols"

text \<open>Line 129.\<close>

definition latest_quarter_in_file :: "string list \<Rightarrow> exn + string" where
  "latest_quarter_in_file cols =
     py_max_key (\<lambda>x. quarter_to_tuple (re_sub_brackets x)) (quarter_columns cols)"

text \<open>
  The whole function.  Every exception raised inside the \<^verbatim>\<open>try\<close> block ends in the
  \<^verbatim>\<open>except\<close> clause, which returns \<open>(False, latest_quarter)\<close> and does nothing else.
\<close>

definition check_excel_for_latest_quarter ::
  "decoders \<Rightarrow> string \<Rightarrow> string \<Rightarrow> string \<Rightarrow> string \<Rightarrow> world \<Rightarrow> (bool \<times> string) \<times> world"
where
  "check_excel_for_latest_quarter lib excel_url latest_quarter save_path file_name w =
     (let temp_excel_path = ''/tmp/'' @ file_name in
      case load_quarter_headers lib excel_url file_name w of
        (Inl e, w1) \<Rightarrow> ((False, latest_quarter), w1)
      | (Inr cols, w1) \<Rightarrow>
          (let normalized_latest_quarter = py_strip latest_quarter in
           case latest_quarter_in_file cols of
             Inl e \<Rightarrow> ((False, latest_quarter), w1)
           | Inr in_file \<Rightarrow>
               (case quarter_to_tuple in_file of
                  Inl e \<Rightarrow> ((False, latest_quarter), w1)
                | Inr t \<Rightarrow>
                    (case quarter_to_tuple normalized_latest_quarter of
                       Inl e \<Rightarrow> ((False, latest_quarter), w1)
                     | Inr t0 \<Rightarrow>
                         if tuple_gt t t0 then
                           (case os_remove temp_excel_path w1 of
                              (Inl e, w2) \<Rightarrow> ((False, latest_quarter), w2)
                            | (Inr u, w2) \<Rightarrow> ((True, in_file), w2))
                         else
                           (case os_remove temp_excel_path w1 of
                              (Inl e, w2) \<Rightarrow> ((False, latest_quarter), w2)
                            | (Inr u, w2) \<Rightarrow> ((False, latest_quarter), w2))))))"

section \<open>search\_for\_energy\_trend\<close>

text \<open>The loop over the links with its \<^verbatim>\<open>break\<close>.\<close>

fun find_excel_link :: "string list \<Rightarrow> string option" where
  "find_excel_link [] = None"
| "find_excel_link (href # links) =
     (if sublist ''.xls'' href \<or> sublist ''.xlsx'' href then Some href
      else find_excel_link links)"

definition absolute_link :: "string \<Rightarrow> string" where
  "absolute_link excel_link =
     (if \<not> prefix ''http'' excel_link then ''https://www.gov.uk'' @ excel_link
      else excel_link)"

definition search_for_energy_trend ::
  "decoders \<Rightarrow> string \<Rightarrow> string \<Rightarrow> string \<Rightarrow> string \<Rightarrow> world \<Rightarrow> world"
where
  "search_for_energy_trend lib url search_term latest_quarter excel_save_path w =
     (case requests_get url w of
        (NetworkFailure m, w1) \<Rightarrow> w1
      | (Response status content, w1) \<Rightarrow>
          if status = 200 then
            (let soup = parse_html lib content;
                 matches = filter (\<lambda>text. sublist (py_lower search_term) (py_lower text))
                             (texts soup) in
             if matches \<noteq> [] then
               (case find_excel_link (hrefs soup) of
                  None \<Rightarrow> w1
                | Some excel_link \<Rightarrow>
                    (let file_name = last (py_split CHR ''/'' excel_link);
                         excel_link = absolute_link excel_link in
                     case check_excel_for_latest_quarter lib excel_link latest_quarter
                            excel_save_path file_name w1 of
                       ((should_download, latest_quarter), w2) \<Rightarrow>
                         if should_download
                         then snd (download_excel_file excel_link excel_save_path file_name w2)
                         else w2))
             else w1)
          else w1)"

text \<open>
  Decoders for the examples: the workbook \<open>release\<close> has the headers of the repository's
  own test, \<open>blank\<close> has no quarter column, and anything else is not a workbook.
\<close>

definition example_lib :: decoders where
  "example_lib =
     \<lparr>parse_html = (\<lambda>content. \<lparr>texts = [], hrefs = []\<rparr>),
      read_excel_columns = (\<lambda>content.
         if content = ''release''
         then Inr [''Column1'', ''2023 1st quarter'', ''2024 2nd quarter'']
         else if content = ''blank'' then Inr [''Column1'', ''Notes'']
         else Inl (OtherError ''not a workbook''))\<rparr>"

section \<open>Data frames\<close>

text \<open>
  A Spark data frame is its list of column names and its rows, each row holding one cell
  per column.  Cells are null, strings, 64-bit integers (the generated \<open>id\<close>) or
  doubles; the type of doubles is a parameter, since nothing below depends on floating
  point arithmetic.
\<close>

datatype 'v cell = Null | Str string | Lng int | Dbl 'v

record 'v frame =
  columns :: "string list"
  rows :: "'v cell list list"

text \<open>
  \<^verbatim>\<open>df.withColumnRenamed(old, new)\<close> renames the columns called \<open>old\<close> and
  does nothing when there is none.
\<close>

definition withColumnRenamed :: "string \<Rightarrow> string \<Rightarrow> 'v frame \<Rightarrow> 'v frame" where
  "withColumnRenamed old new df =
     df\<lparr>columns := map (\<lambda>c. if c = old then new else c) (columns df)\<rparr>"

text \<open>Every row of a frame has one cell per column.\<close>

definition wf_frame :: "'v frame \<Rightarrow> bool" where
  "wf_frame df = list_all (\<lambda>r. length r = length (columns df)) (rows df)"

section \<open>rename\_columns\<close>

text \<open>Step 1 of the loop body: the cleaned column name.\<close>

definition col_name_cleaned :: "string \<Rightarrow> string" where
  "col_name_cleaned col_name =
     py_strip (replace_char CHR ''_'' CHR '' ''
                (replace_char CHR 0x0A CHR '' '' (replace_underscore_newline col_name)))"

text \<open>Step 3: the \<^verbatim>\<open>if/elif\<close> chain on the lower-cased second part.\<close>

definition quarter_num :: "string \<Rightarrow> string option" where
  "quarter_num quarter =
     (if sublist ''1st'' quarter then Some ''01''
      else if sublist ''2nd'' quarter then Some ''02''
      else if sublist ''3rd'' quarter \<or> sublist ''3nd'' quarter then Some ''03''
      else if sublist ''4th'' quarter then Some ''04''
      else None)"

text \<open>
  The name that the loop pairs with \<open>col_name\<close> in \<open>renamed_cols\<close>.
\<close>

definition new_col_name :: "string \<Rightarrow> string" where
  "new_col_name col_name =
     (let parts = py_split CHR '' '' (col_name_cleaned col_name) in
      if 2 \<le> length parts then
        (let year = py_strip (parts ! 0);
             quarter = py_lower (py_strip (parts ! 1)) in
         case quarter_num quarter of
           Some qn \<Rightarrow> if py_isdigit year then year @ qn else col_name
         | None \<Rightarrow> col_name)
      else col_name)"

definition renamed_cols :: "string list \<Rightarrow> (string \<times> string) list" where
  "renamed_cols cs = map (\<lambda>col_name. (col_name, new_col_name col_name)) cs"

definition rename_columns :: "'v frame \<Rightarrow> 'v frame" where
  "rename_columns df =
     foldl (\<lambda>d (old_name, new_name). withColumnRenamed old_name new_name d) df
       (renamed_cols (columns df))"


section \<open>Spark operations used by the transformation stage\<close>

text \<open>
  What the program leaves to the engine is a parameter: the id that
  \<^verbatim>\<open>monotonically_increasing_id()\<close> gives to the row at a position, the aggregate
  \<^verbatim>\<open>sum\<close> over the cells of a column, and the cast of a number to a string.
\<close>

record 'v spark =
  row_id :: "nat \<Rightarrow> int"
  sum_agg :: "'v cell list \<Rightarrow> 'v cell"
  cast_string :: "'v cell \<Rightarrow> string"

text \<open>A column reference resolves when exactly one column has the name.\<close>

definition resolved :: "'v frame \<Rightarrow> string \<Rightarrow> bool" where
  "resolved df name = (count_list (columns df) name = 1)"

text \<open>The cell of a row under a column name.\<close>

fun lookup :: "string list \<Rightarrow> 'v cell list \<Rightarrow> string \<Rightarrow> 'v cell" where
  "lookup (c # cs) (v # vs) name = (if c = name then v else lookup cs vs name)"
| "lookup cs vs name = Null"

text \<open>
  \<^verbatim>\<open>df.withColumn(name, expr)\<close>: the expression sees the position of the row and its
  cells by column name; an existing column of that name is replaced in place, otherwise
  the column is added at the end.
\<close>

definition withColumn ::
  "string \<Rightarrow> (nat \<Rightarrow> (string \<Rightarrow> 'v cell) \<Rightarrow> 'v cell) \<Rightarrow> 'v frame \<Rightarrow> 'v frame" where
  "withColumn name expr df =
     (if name \<in> set (columns df) then
        df\<lparr>rows := map (\<lambda>(i, r).
                        map (\<lambda>(c, v). if c = name then expr i (lookup (columns df) r) else v)
                          (zip (columns df) r))
                     (enumerate 0 (rows df))\<rparr>
      else
        \<lparr>columns = columns df @ [name],
         rows = map (\<lambda>(i, r). r @ [expr i (lookup (columns df) r)]) (enumerate 0 (rows df))\<rparr>)"

text \<open>\<^verbatim>\<open>df.filter(cond)\<close> keeps the rows on which the condition is true, not null.\<close>

definition filter_rows :: "((string \<Rightarrow> 'v cell) \<Rightarrow> bool option) \<Rightarrow> 'v frame \<Rightarrow> 'v frame" where
  "filter_rows cond df =
     df\<lparr>rows := filter (\<lambda>r. cond (lookup (columns df) r) = Some True) (rows df)\<rparr>"

text \<open>Nullable strings and SQL's three-valued comparisons.\<close>

fun cell_string :: "'v spark \<Rightarrow> 'v cell \<Rightarrow> string option" where
  "cell_string E Null = None"
| "cell_string E (Str s) = Some s"
| "cell_string E c = Some (cast_string E c)"

fun string_cell :: "string option \<Rightarrow> 'v cell" where
  "string_cell None = Null"
| "string_cell (Some s) = Str s"

fun sql_eq :: "string option \<Rightarrow> string option \<Rightarrow> bool option" where
  "sql_eq (Some a) (Some b) = Some (a = b)"
| "sql_eq a b = None"

fun sql_neq :: "string option \<Rightarrow> string option \<Rightarrow> bool option" where
  "sql_neq (Some a) (Some b) = Some (a \<noteq> b)"
| "sql_neq a b = None"

fun sql_and :: "bool option \<Rightarrow> bool option \<Rightarrow> bool option" where
  "sql_and (Some False) b = Some False"
| "sql_and a (Some False) = Some False"
| "sql_and (Some True) (Some True) = Some True"
| "sql_and a b = None"

text \<open>\<^verbatim>\<open>trim\<close> removes the space character from both ends.\<close>

definition trim_spaces :: "string \<Rightarrow> string" where
  "trim_spaces s =
     rev (dropWhile (\<lambda>c. c = CHR '' '') (rev (dropWhile (\<lambda>c. c = CHR '' '') s)))"

text \<open>
  \<^verbatim>\<open>regexp_replace(col, r"\s*\[note\s*\d+\]", "")\<close>.  An occurrence at the head of the
  string is a run of whitespace, the text \<open>[note\<close>, a run of whitespace, at least one
  digit and a closing bracket; \<open>note_match\<close> gives what follows it.
\<close>

definition java_space :: "char \<Rightarrow> bool" where
  "java_space c = (c \<in> set [CHR '' '', CHR 0x09, CHR 0x0A, CHR 0x0B, CHR 0x0C, CHR 0x0D])"

definition note_match :: "string \<Rightarrow> string option" where
  "note_match s =
     (let r = dropWhile java_space s in
      if prefix ''[note'' r then
        (let r1 = dropWhile java_space (drop 5 r);
             r2 = dropWhile is_digit r1 in
         if takeWhile is_digit r1 \<noteq> [] \<and> prefix '']'' r2 then Some (drop 1 r2) else None)
      else None)"

function remove_notes :: "string \<Rightarrow> string" where
  "remove_notes [] = []"
| "remove_notes (c # s) =
     (case note_match (c # s) of
        Some rest \<Rightarrow> remove_notes rest
      | None \<Rightarrow> c # remove_notes s)"
  by pat_completeness auto
termination
proof (relation "measure length")
  show "wf (measure length)" by simp
next
  fix c :: char and s rest :: string
  assume m: "note_match (c # s) = Some rest"
  let ?r = "dropWhile java_space (c # s)"
  let ?r1 = "dropWhile java_space (drop 5 ?r)"
  let ?r2 = "dropWhile is_digit ?r1"
  from m have p: "prefix '']'' ?r2" and rest: "rest = drop 1 ?r2"
    by (auto simp: note_match_def Let_def split: if_splits)
  have "\<And>ys. prefix '']'' ys \<Longrightarrow> ys \<noteq> []" by auto
  from this[OF p] have "?r2 \<noteq> []" .
  then have "length rest < length ?r2" using rest by simp
  also have "length ?r2 \<le> length ?r1" by (rule length_dropWhile_le)
  also have "length ?r1 \<le> length (drop 5 ?r)" by (rule length_dropWhile_le)
  also have "length (drop 5 ?r) \<le> length ?r" by simp
  also have "length ?r \<le> length (c # s)" by (rule length_dropWhile_le)
  finally show "(rest, c # s) \<in> measure length" by simp
next
  fix c :: char and s :: string
  show "(s, c # s) \<in> measure length" by simp
qed

text \<open>\<^verbatim>\<open>concat_ws(sep, ...)\<close> joins the arguments that are not null.\<close>

fun join_with :: "string \<Rightarrow> string list \<Rightarrow> string" where
  "join_with sep [] = []"
| "join_with sep [s] = s"
| "join_with sep (s # t # ss) = s @ sep @ join_with sep (t # ss)"

definition concat_ws :: "string \<Rightarrow> string option list \<Rightarrow> string option" where
  "concat_ws sep args = Some (join_with sep (concat (map (\<lambda>a. case a of None \<Rightarrow> [] | Some s \<Rightarrow> [s]) args)))"

text \<open>\<^verbatim>\<open>split(col, '_')[0]\<close>: the text before the first underscore.\<close>

definition split_first :: "string option \<Rightarrow> string option" where
  "split_first a = map_option (takeWhile (\<lambda>c. c \<noteq> CHR ''_'')) a"

text \<open>\<^verbatim>\<open>col("id").isin(xs)\<close>; the id column holds the generated integers.\<close>

fun isin :: "'v cell \<Rightarrow> int list \<Rightarrow> bool" where
  "isin (Lng i) xs = (i \<in> set xs)"
| "isin c xs = False"

section \<open>The transformation stage\<close>

text \<open>Lines 260 to 269: the id, the underscores and the rename of \<open>Column1\<close>.\<close>

definition create_spark_df :: "'v spark \<Rightarrow> 'v frame \<Rightarrow> 'v frame" where
  "create_spark_df E df_quarter = withColumn ''id'' (\<lambda>i col. Lng (row_id E i)) df_quarter"

definition select_underscored :: "'v frame \<Rightarrow> exn + 'v frame" where
  "select_underscored df =
     (if distinct (columns df)
      then Inr (df\<lparr>columns := map (replace_char CHR '' '' CHR ''_'') (columns df)\<rparr>)
      else Inl (AnalysisException ''ambiguous reference''))"

definition rename_Column1 :: "'v frame \<Rightarrow> 'v frame" where
  "rename_Column1 df =
     (if ''Column1'' \<in> set (columns df) then withColumnRenamed ''Column1'' ''Category'' df
      else df)"

text \<open>Lines 276 and 277: the cleaning of \<open>Category\<close>.\<close>

definition clean_category :: "'v spark \<Rightarrow> 'v frame \<Rightarrow> exn + 'v frame" where
  "clean_category E df =
     (if resolved df ''Category'' then
        Inr (withColumn ''Category''
               (\<lambda>i col. string_cell (map_option remove_notes (cell_string E (col ''Category''))))
               (withColumn ''Category''
                  (\<lambda>i col. string_cell (map_option trim_spaces (cell_string E (col ''Category''))))
                  df))
      else Inl (AnalysisException ''cannot resolve Category''))"

text \<open>
  Lines 281 to 285: \<open>Sub_Category\<close> from the id and the category, as the chain of
  \<^verbatim>\<open>when\<close> and \<^verbatim>\<open>otherwise\<close> computes it.
\<close>

definition sub_category_expr :: "'v cell \<Rightarrow> string option \<Rightarrow> string option" where
  "sub_category_expr id_cell category =
     (if isin id_cell [1, 2, 3] then concat_ws ''_'' [Some ''Indigenous production'', category]
      else if isin id_cell [5, 6] then concat_ws ''_'' [Some ''Imports'', category]
      else if isin id_cell [8, 9] then concat_ws ''_'' [Some ''Exports'', category]
      else category)"

text \<open>Lines 289 and 290: the update of \<open>Category\<close>.\<close>

definition category_expr :: "string option \<Rightarrow> string option \<Rightarrow> string option" where
  "category_expr sub_category category =
     (if sql_neq sub_category category = Some True then split_first sub_category
      else category)"

definition add_sub_category :: "'v spark \<Rightarrow> 'v frame \<Rightarrow> exn + 'v frame" where
  "add_sub_category E df =
     (if resolved df ''id'' \<and> resolved df ''Category'' then
        Inr (withColumn ''Sub_Category''
               (\<lambda>i col. string_cell
                  (sub_category_expr (col ''id'') (cell_string E (col ''Category''))))
               df)
      else Inl (AnalysisException ''cannot resolve id or Category''))"

definition update_category :: "'v spark \<Rightarrow> 'v frame \<Rightarrow> exn + 'v frame" where
  "update_category E df =
     (if resolved df ''Sub_Category'' \<and> resolved df ''Category'' then
        Inr (withColumn ''Category''
               (\<lambda>i col. string_cell
                  (category_expr (cell_string E (col ''Sub_Category''))
                     (cell_string E (col ''Category''))))
               df)
      else Inl (AnalysisException ''cannot resolve Sub_Category or Category''))"

text \<open>Lines 294 to 298: the rows that are summed.\<close>

definition indigenous_rows :: "'v spark \<Rightarrow> 'v frame \<Rightarrow> 'v frame" where
  "indigenous_rows E df =
     filter_rows (\<lambda>col.
        sql_and
          (sql_and (sql_eq (cell_string E (col ''Category'')) (Some ''Indigenous production''))
                   (sql_neq (cell_string E (col ''Sub_Category'')) (Some ''Indigenous production'')))
          (sql_neq (cell_string E (col ''Sub_Category''))
                   (Some ''Indigenous production_Feedstocks'')))
       df"

text \<open>
  Lines 302 to 304: one row per category of the filtered frame, holding the sums of all
  the other columns, with the label of the aggregate as \<open>Sub_Category\<close>.
\<close>

definition columns_to_sum :: "'v frame \<Rightarrow> string list" where
  "columns_to_sum df = filter (\<lambda>c. c \<notin> set [''Category'', ''Sub_Category'']) (columns df)"

definition summed :: "'v spark \<Rightarrow> 'v frame \<Rightarrow> exn + 'v frame" where
  "summed E indigenous_df =
     (if distinct (columns indigenous_df) \<and> resolved indigenous_df ''Category'' then
        (let cat = (\<lambda>r. lookup (columns indigenous_df) r ''Category'');
             groups = remdups (map cat (rows indigenous_df)) in
         Inr (withColumn ''Sub_Category''
                (\<lambda>i col. Str ''Indigenous production_Crude Oil & NGLs'')
                \<lparr>columns = ''Category'' # columns_to_sum indigenous_df,
                 rows = map (\<lambda>g.
                          g # map (\<lambda>c. sum_agg E
                                    (map (\<lambda>r. lookup (columns indigenous_df) r c)
                                       (filter (\<lambda>r. cat r = g) (rows indigenous_df))))
                                (columns_to_sum indigenous_df))
                        groups\<rparr>))
      else Inl (AnalysisException ''ambiguous reference''))"

text \<open>Lines 308 to 310: the union by name and the filter of the superseded rows.\<close>

definition unionByName :: "'v frame \<Rightarrow> 'v frame \<Rightarrow> exn + 'v frame" where
  "unionByName a b =
     (if distinct (columns a) \<and> distinct (columns b) \<and> set (columns a) = set (columns b)
      then Inr \<lparr>columns = columns a,
                rows = rows a @ map (\<lambda>r. map (lookup (columns b) r) (columns a)) (rows b)\<rparr>
      else Inl (AnalysisException ''cannot resolve column of the union''))"

definition drop_superseded :: "'v spark \<Rightarrow> 'v frame \<Rightarrow> 'v frame" where
  "drop_superseded E df =
     filter_rows (\<lambda>col.
        sql_and
          (sql_neq (cell_string E (col ''Sub_Category'')) (Some ''Indigenous production_Crude oil''))
          (sql_neq (cell_string E (col ''Sub_Category'')) (Some ''Indigenous production_NGLs'')))
       df"

text \<open>
  Lines 374 to 382: the quarter columns and the \<^verbatim>\<open>stack\<close>, which needs at least one
  pair and every column it names to resolve.
\<close>

definition digit_columns :: "'v frame \<Rightarrow> string list" where
  "digit_columns df = filter py_isdigit (columns df)"

definition unpivot :: "'v frame \<Rightarrow> string list \<Rightarrow> exn + 'v frame" where
  "unpivot df qcs =
     (if qcs \<noteq> [] \<and> list_all (resolved df) ([''Category'', ''Sub_Category''] @ qcs) then
        Inr \<lparr>columns = [''Category'', ''Sub_Category'', ''Quarter'', ''Quantity''],
             rows = concat (map (\<lambda>r.
                       map (\<lambda>c. [lookup (columns df) r ''Category'',
                                 lookup (columns df) r ''Sub_Category'',
                                 Str c, lookup (columns df) r c])
                         qcs)
                     (rows df))\<rparr>
      else Inl (AnalysisException ''stack''))"

text \<open>
  The frames of one run, under the names the notebook gives them, and the frame that
  line 400 writes as CSV and that ends up at \<open>csv_save_path\<close>.
\<close>

record 'v run =
  spark_df :: "'v frame"
  final_df :: "'v frame"
  df_renamed :: "'v frame"
  quarter_cols :: "string list"
  df_unpivot :: "'v frame"
  finalDF :: "'v frame"
  csv_written :: "'v frame"

definition bind :: "exn + 'a \<Rightarrow> ('a \<Rightarrow> exn + 'b) \<Rightarrow> exn + 'b" where
  "bind m f = (case m of Inl e \<Rightarrow> Inl e | Inr x \<Rightarrow> f x)"

text \<open>Lines 260 to 277, and lines 281 to 290.\<close>

definition prepare :: "'v spark \<Rightarrow> 'v frame \<Rightarrow> exn + 'v frame" where
  "prepare E df_quarter =
     bind (select_underscored (create_spark_df E df_quarter)) (\<lambda>df1.
       clean_category E (rename_Column1 df1))"

definition classify :: "'v spark \<Rightarrow> 'v frame \<Rightarrow> exn + 'v frame" where
  "classify E df = bind (add_sub_category E df) (update_category E)"

definition transformation :: "'v spark \<Rightarrow> 'v frame \<Rightarrow> string \<Rightarrow> string \<Rightarrow> exn + 'v run" where
  "transformation E df_quarter file_name today =
     bind (prepare E df_quarter) (\<lambda>df2.
     bind (classify E df2) (\<lambda>spark_df.
     bind (summed E (indigenous_rows E spark_df)) (\<lambda>summed_df.
     bind (unionByName spark_df summed_df) (\<lambda>unioned.
       (let final_df = drop_superseded E unioned;
            df_renamed = rename_columns final_df;
            quarter_columns = digit_columns df_renamed in
        bind (unpivot df_renamed quarter_columns) (\<lambda>df_unpivot.
          (let finalDF = withColumn ''ProcessedDate'' (\<lambda>i col. Str today)
                           (withColumn ''FileName'' (\<lambda>i col. Str file_name) df_unpivot)
           in Inr \<lparr>spark_df = spark_df, final_df = final_df, df_renamed = df_renamed,
                   quarter_cols = quarter_columns, df_unpivot = df_unpivot,
                   finalDF = finalDF, csv_written = spark_df\<rparr>)))))))"

text \<open>An engine and a sheet for the examples: one partition, exact sums of integers.\<close>

fun example_sum :: "int cell list \<Rightarrow> int cell" where
  "example_sum [] = Null"
| "example_sum (Lng i # cs) = (case example_sum cs of Lng j \<Rightarrow> Lng (i + j) | Dbl j \<Rightarrow> Dbl (i + j) | c \<Rightarrow> Lng i)"
| "example_sum (Dbl i # cs) = (case example_sum cs of Lng j \<Rightarrow> Dbl (i + j) | Dbl j \<Rightarrow> Dbl (i + j) | c \<Rightarrow> Dbl i)"
| "example_sum (c # cs) = example_sum cs"

definition example_engine :: "int spark" where
  "example_engine = \<lparr>row_id = int, sum_agg = example_sum, cast_string = (\<lambda>c. ''number'')\<rparr>"

definition example_sheet :: "int frame" where
  "example_sheet =
     \<lparr>columns = [''Column1'', ''2024 1st quarter'', ''2024 2nd quarter''],
      rows = [[Str ''Indigenous production [note 1]'', Dbl 30, Dbl 33],
              [Str ''Crude oil'', Dbl 10, Dbl 11],
              [Str ''NGLs'', Dbl 20, Dbl 22],
              [Str ''Feedstocks'', Dbl 1, Dbl 2]]\<rparr>"

text \<open>The same sheet with a blank first cell in its second row.\<close>

definition example_blank_sheet :: "int frame" where
  "example_blank_sheet =
     \<lparr>columns = [''Column1'', ''2024 1st quarter''],
      rows = [[Str ''Indigenous production'', Dbl 30],
              [Null, Dbl 10],
              [Str ''NGLs'', Dbl 20]]\<rparr>"

text \<open>The frames of the run on the example sheet, one per step.\<close>

definition ex_loaded :: "int frame" where
  "ex_loaded =
     \<lparr>columns = [''Column1'', ''2024_1st_quarter'', ''2024_2nd_quarter'', ''id''],
      rows = [[Str ''Indigenous production [note 1]'', Dbl 30, Dbl 33, Lng 0],
              [Str ''Crude oil'', Dbl 10, Dbl 11, Lng 1],
              [Str ''NGLs'', Dbl 20, Dbl 22, Lng 2],
              [Str ''Feedstocks'', Dbl 1, Dbl 2, Lng 3]]\<rparr>"

definition ex_cleaned :: "int frame" where
  "ex_cleaned =
     \<lparr>columns = [''Category'', ''2024_1st_quarter'', ''2024_2nd_quarter'', ''id''],
      rows = [[Str ''Indigenous production'', Dbl 30, Dbl 33, Lng 0],
              [Str ''Crude oil'', Dbl 10, Dbl 11, Lng 1],
              [Str ''NGLs'', Dbl 20, Dbl 22, Lng 2],
              [Str ''Feedstocks'', Dbl 1, Dbl 2, Lng 3]]\<rparr>"

definition ex_sub :: "int frame" where
  "ex_sub =
     \<lparr>columns = [''Category'', ''2024_1st_quarter'', ''2024_2nd_quarter'', ''id'',
                 ''Sub_Category''],
      rows = [[Str ''Indigenous production'', Dbl 30, Dbl 33, Lng 0,
               Str ''Indigenous production''],
              [Str ''Crude oil'', Dbl 10, Dbl 11, Lng 1,
               Str ''Indigenous production_Crude oil''],
              [Str ''NGLs'', Dbl 20, Dbl 22, Lng 2, Str ''Indigenous production_NGLs''],
              [Str ''Feedstocks'', Dbl 1, Dbl 2, Lng 3,
               Str ''Indigenous production_Feedstocks'']]\<rparr>"

definition ex_spark_df :: "int frame" where
  "ex_spark_df =
     \<lparr>columns = [''Category'', ''2024_1st_quarter'', ''2024_2nd_quarter'', ''id'',
                 ''Sub_Category''],
      rows = [[Str ''Indigenous production'', Dbl 30, Dbl 33, Lng 0,
               Str ''Indigenous production''],
              [Str ''Indigenous production'', Dbl 10, Dbl 11, Lng 1,
               Str ''Indigenous production_Crude oil''],
              [Str ''Indigenous production'', Dbl 20, Dbl 22, Lng 2,
               Str ''Indigenous production_NGLs''],
              [Str ''Indigenous production'', Dbl 1, Dbl 2, Lng 3,
               Str ''Indigenous production_Feedstocks'']]\<rparr>"

definition ex_summed :: "int frame" where
  "ex_summed =
     \<lparr>columns = [''Category'', ''2024_1st_quarter'', ''2024_2nd_quarter'', ''id'',
                 ''Sub_Category''],
      rows = [[Str ''Indigenous production'', Dbl 30, Dbl 33, Lng 3,
               Str ''Indigenous production_Crude Oil & NGLs'']]\<rparr>"

definition ex_final_df :: "int frame" where
  "ex_final_df =
     \<lparr>columns = [''Category'', ''2024_1st_quarter'', ''2024_2nd_quarter'', ''id'',
                 ''Sub_Category''],
      rows = [[Str ''Indigenous production'', Dbl 30, Dbl 33, Lng 0,
               Str ''Indigenous production''],
              [Str ''Indigenous production'', Dbl 1, Dbl 2, Lng 3,
               Str ''Indigenous production_Feedstocks''],
              [Str ''Indigenous production'', Dbl 30, Dbl 33, Lng 3,
               Str ''Indigenous production_Crude Oil & NGLs'']]\<rparr>"

definition ex_unpivot :: "int frame" where
  "ex_unpivot =
     \<lparr>columns = [''Category'', ''Sub_Category'', ''Quarter'', ''Quantity''],
      rows = [[Str ''Indigenous production'', Str ''Indigenous production'',
               Str ''202401'', Dbl 30],
              [Str ''Indigenous production'', Str ''Indigenous production'',
               Str ''202402'', Dbl 33],
              [Str ''Indigenous production'', Str ''Indigenous production_Feedstocks'',
               Str ''202401'', Dbl 1],
              [Str ''Indigenous production'', Str ''Indigenous production_Feedstocks'',
               Str ''202402'', Dbl 2],
              [Str ''Indigenous production'', Str ''Indigenous production_Crude Oil & NGLs'',
               Str ''202401'', Dbl 30],
              [Str ''Indigenous production'', Str ''Indigenous production_Crude Oil & NGLs'',
               Str ''202402'', Dbl 33]]\<rparr>"

definition ex_finalDF :: "int frame" where
  "ex_finalDF =
     \<lparr>columns = [''Category'', ''Sub_Category'', ''Quarter'', ''Quantity'', ''FileName'',
                 ''ProcessedDate''],
      rows = map (\<lambda>r. r @ [Str ''ET_3.1.xlsx'', Str ''03/11/2026'']) (rows ex_unpivot)\<rparr>"

definition ex_run :: "int run" where
  "ex_run =
     \<lparr>spark_df = ex_spark_df, final_df = ex_final_df,
      df_renamed = rename_columns ex_final_df, quarter_cols = [''202401'', ''202402''],
      df_unpivot = ex_unpivot, finalDF = ex_finalDF, csv_written = ex_spark_df\<rparr>"

text \<open>
  The classification as the specification words it, for a row with the ordinal id \<open>i\<close>
  and the category text \<open>c\<close>: the prefixed sub-category, and the category overwritten
  with the text before the first separator where the two differ.
\<close>

definition spec_sub_category :: "int \<Rightarrow> string \<Rightarrow> string" where
  "spec_sub_category i c =
     (if i \<in> {1, 2, 3} then ''Indigenous production_'' @ c
      else if i \<in> {5, 6} then ''Imports_'' @ c
      else if i \<in> {8, 9} then ''Exports_'' @ c
      else c)"

definition spec_category :: "int \<Rightarrow> string \<Rightarrow> string" where
  "spec_category i c =
     (if spec_sub_category i c \<noteq> c
      then takeWhile (\<lambda>x. x \<noteq> CHR ''_'') (spec_sub_category i c)
      else c)"

text \<open>The frames of the run on the sheet with the blank cell, up to \<open>spark_df\<close>.\<close>

definition ex_blank_cleaned :: "int frame" where
  "ex_blank_cleaned =
     \<lparr>columns = [''Category'', ''2024_1st_quarter'', ''id''],
      rows = [[Str ''Indigenous production'', Dbl 30, Lng 0],
              [Null, Dbl 10, Lng 1],
              [Str ''NGLs'', Dbl 20, Lng 2]]\<rparr>"

definition ex_blank_sub :: "int frame" where
  "ex_blank_sub =
     \<lparr>columns = [''Category'', ''2024_1st_quarter'', ''id'', ''Sub_Category''],
      rows = [[Str ''Indigenous production'', Dbl 30, Lng 0, Str ''Indigenous production''],
              [Null, Dbl 10, Lng 1, Str ''Indigenous production''],
              [Str ''NGLs'', Dbl 20, Lng 2, Str ''Indigenous production_NGLs'']]\<rparr>"

definition ex_blank_spark_df :: "int frame" where
  "ex_blank_spark_df =
     \<lparr>columns = [''Category'', ''2024_1st_quarter'', ''id'', ''Sub_Category''],
      rows = [[Str ''Indigenous production'', Dbl 30, Lng 0, Str ''Indigenous production''],
              [Null, Dbl 10, Lng 1, Str ''Indigenous production''],
              [Str ''Indigenous production'', Dbl 20, Lng 2,
               Str ''Indigenous production_NGLs'']]\<rparr>"

section \<open>Properties of quarter\_to\_tuple\<close>

lemma match_quarter_digits_Some:
  "match_quarter_digits k r = Some ns \<longleftrightarrow>
     (length ns = k \<and> list_all is_digit ns \<and>
      (\<exists>suf rest. suf \<in> set ordinal_suffixes \<and> r = ns @ suf @ quarter_word @ rest))"
proof
  assume "match_quarter_digits k r = Some ns"
  then have k: "k \<le> length r" and d: "list_all is_digit (take k r)"
    and m: "match_suffix_quarter (drop k r)" and ns: "ns = take k r"
    by (auto simp: match_quarter_digits_def split: if_splits)
  from m obtain suf rest where s: "suf \<in> set ordinal_suffixes" "drop k r = (suf @ quarter_word) @ rest"
    by (auto simp: match_suffix_quarter_def list_ex_iff prefix_def)
  have "r = take k r @ drop k r" by simp
  with s have "r = ns @ suf @ quarter_word @ rest" using ns by simp
  then have "\<exists>suf rest. suf \<in> set ordinal_suffixes \<and> r = ns @ suf @ quarter_word @ rest"
    using s(1) by blast
  moreover have "length ns = k" using ns k by simp
  moreover have "list_all is_digit ns" using ns d by simp
  ultimately show "length ns = k \<and> list_all is_digit ns \<and>
      (\<exists>suf rest. suf \<in> set ordinal_suffixes \<and> r = ns @ suf @ quarter_word @ rest)"
    by blast
next
  assume a: "length ns = k \<and> list_all is_digit ns \<and>
      (\<exists>suf rest. suf \<in> set ordinal_suffixes \<and> r = ns @ suf @ quarter_word @ rest)"
  then obtain suf rest where s: "suf \<in> set ordinal_suffixes" "r = ns @ suf @ quarter_word @ rest"
    by blast
  have "prefix (suf @ quarter_word) (drop k r)" using a s by (simp add: prefix_def)
  then have "match_suffix_quarter (drop k r)"
    using s(1) by (auto simp: match_suffix_quarter_def list_ex_iff)
  then show "match_quarter_digits k r = Some ns"
    using a s by (simp add: match_quarter_digits_def)
qed

lemma suffix_hd_not_digit:
  "suf \<in> set ordinal_suffixes \<Longrightarrow> \<exists>c t. suf = c # t \<and> \<not> is_digit c"
  by (auto simp: ordinal_suffixes_def is_digit_def)

lemma match2_single_digit:
  assumes "suf \<in> set ordinal_suffixes"
  shows "match_quarter_digits 2 ([d] @ suf @ rest) = None"
proof -
  from suffix_hd_not_digit[OF assms] obtain c t where "suf = c # t" "\<not> is_digit c" by blast
  then show ?thesis by (simp add: match_quarter_digits_def numeral_2_eq_2)
qed

lemma re_match_quarter_Some:
  "re_match_quarter s = Some (ys, ns) \<longleftrightarrow>
     (length ys = 4 \<and> list_all is_digit ys \<and> (length ns = 1 \<or> length ns = 2) \<and>
      list_all is_digit ns \<and>
      (\<exists>suf rest. suf \<in> set ordinal_suffixes \<and>
                  s = ys @ '' '' @ ns @ suf @ quarter_word @ rest))"
  (is "?L \<longleftrightarrow> ?R")
proof
  assume L: ?L
  then have len: "5 \<le> length s" and dy: "list_all is_digit (take 4 s)"
    and sp: "s ! 4 = CHR '' ''" and ys: "ys = take 4 s"
    by (auto simp: re_match_quarter_def split: if_splits option.splits)
  from L len dy sp have "match_quarter_digits 2 (drop 5 s) = Some ns \<or>
      match_quarter_digits 1 (drop 5 s) = Some ns"
    by (auto simp: re_match_quarter_def split: option.splits)
  then obtain k where k: "k = 1 \<or> k = 2" "match_quarter_digits k (drop 5 s) = Some ns"
    by blast
  then obtain suf rest where r: "length ns = k" "list_all is_digit ns"
    "suf \<in> set ordinal_suffixes" "drop 5 s = ns @ suf @ quarter_word @ rest"
    unfolding match_quarter_digits_Some by blast
  have "s = take 4 s @ drop 4 s" by simp
  also have "drop 4 s = s ! 4 # drop 5 s"
    using len by (simp add: Cons_nth_drop_Suc[symmetric])
  finally have "s = ys @ '' '' @ ns @ suf @ quarter_word @ rest"
    using ys sp r(4) by simp
  then have "\<exists>suf rest. suf \<in> set ordinal_suffixes \<and>
                  s = ys @ '' '' @ ns @ suf @ quarter_word @ rest"
    using r(3) by blast
  moreover have "length ys = 4" using ys len by simp
  moreover have "list_all is_digit ys" using ys dy by simp
  moreover have "length ns = 1 \<or> length ns = 2" using r(1) k(1) by simp
  ultimately show ?R using r(2) by blast
next
  assume R: ?R
  then obtain suf rest where s: "suf \<in> set ordinal_suffixes"
    "s = ys @ '' '' @ ns @ suf @ quarter_word @ rest" by blast
  from R have ly: "length ys = 4" and dy: "list_all is_digit ys" and dn: "list_all is_digit ns"
    by auto
  have pre: "5 \<le> length s" "take 4 s = ys" "s ! 4 = CHR '' ''" "drop 5 s = ns @ suf @ quarter_word @ rest"
    using s(2) ly by (simp_all add: nth_append)
  from R consider "length ns = 1" | "length ns = 2" by blast
  then show ?L
  proof cases
    case 1
    then obtain d where d: "ns = [d]" by (cases ns) auto
    have "match_quarter_digits 2 (drop 5 s) = None"
      using match2_single_digit[OF s(1), of d "quarter_word @ rest"] pre(4) d by simp
    moreover have "match_quarter_digits 1 (drop 5 s) = Some ns"
      unfolding match_quarter_digits_Some using 1 dn s(1) pre(4) by blast
    ultimately show ?thesis using pre dy by (simp add: re_match_quarter_def)
  next
    case 2
    have "match_quarter_digits 2 (drop 5 s) = Some ns"
      unfolding match_quarter_digits_Some using 2 dn s(1) pre(4) by blast
    then show ?thesis using pre dy by (simp add: re_match_quarter_def)
  qed
qed

lemma quarter_to_tuple_Inr:
  "quarter_to_tuple s = Inr (y, q) \<longleftrightarrow>
     (\<exists>ys ns. re_match_quarter s = Some (ys, ns) \<and> y = py_int ys \<and> q = py_int ns)"
  by (auto simp: quarter_to_tuple_def split: option.splits)

lemma quarter_to_tuple_Inl:
  "(\<forall>t. quarter_to_tuple s \<noteq> Inr t) \<Longrightarrow>
   quarter_to_tuple s = Inl (ValueError (''Invalid quarter format: '' @ s))"
  by (auto simp: quarter_to_tuple_def split: option.splits)

lemma spec_valid_label_shape:
  assumes "spec_valid_label s"
  shows "\<exists>n suf. n \<in> set ''1234'' \<and> suf \<in> set ordinal_suffixes \<and>
           s = take 4 s @ '' '' @ [n] @ suf @ quarter_word @ []"
proof -
  from assms have "drop 4 s \<in> set (concat (map (\<lambda>n. map (\<lambda>suf. '' '' @ n @ suf @ quarter_word)
                                        ordinal_suffixes) [''1'', ''2'', ''3'', ''4'']))"
    by (simp add: spec_valid_label_def)
  then obtain n suf where "n \<in> set ''1234''" "suf \<in> set ordinal_suffixes"
      "drop 4 s = '' '' @ [n] @ suf @ quarter_word"
    by auto
  moreover have "s = take 4 s @ drop 4 s" by simp
  ultimately show ?thesis by (metis append_Nil2)
qed

lemma spec_valid_label_parses:
  assumes "spec_valid_label s"
  shows "quarter_to_tuple s = Inr (py_int (take 4 s), py_int [s ! 5]) \<and>
         py_int [s ! 5] \<in> {1, 2, 3, 4}"
proof -
  from spec_valid_label_shape[OF assms] obtain n suf where
    n: "n \<in> set ''1234''" and suf: "suf \<in> set ordinal_suffixes"
    and s: "s = take 4 s @ '' '' @ [n] @ suf @ quarter_word @ []" by blast
  from assms have l4: "length (take 4 s) = 4" and d4: "list_all is_digit (take 4 s)"
    by (simp_all add: spec_valid_label_def)
  have dn: "list_all is_digit [n]" using n by (auto simp: is_digit_def)
  have ex: "\<exists>suf rest. suf \<in> set ordinal_suffixes \<and>
                 s = take 4 s @ '' '' @ [n] @ suf @ quarter_word @ rest"
    using suf s by blast
  have l1: "length [n] = 1 \<or> length [n] = 2" by simp
  have "re_match_quarter s = Some (take 4 s, [n])"
    unfolding re_match_quarter_Some using l4 d4 l1 dn ex by blast
  moreover have "s ! 5 = n"
    using l4 by (subst s) (simp add: nth_append)
  moreover have "py_int [n] \<in> {1, 2, 3, 4}"
    using n by (auto simp: py_int_def digit_val_def)
  ultimately show ?thesis by (simp add: quarter_to_tuple_def)
qed

text \<open>
  Claim C4, as amended.  \<open>quarter_to_tuple\<close> returns \<open>(year, N)\<close> exactly on the strings
  that \<^emph>\<open>begin\<close> with four digits, a space, one or two digits, one of the suffixes
  \<open>st\<close>, \<open>nd\<close>, \<open>rd\<close>, \<open>th\<close> and the word \<open>quarter\<close>; anything may follow, and
  \<open>N\<close> is whatever the one or two digits denote (0 to 99).  On every other string it
  raises \<open>ValueError\<close>.  In particular every label that is valid in the
  specification's sense parses to its year and its quarter number in 1..4.
\<close>

theorem quarter_to_tuple_prefix_match:
  "(quarter_to_tuple s = Inr (y, q) \<longleftrightarrow>
      (\<exists>ys ns suf rest.
          s = ys @ '' '' @ ns @ suf @ quarter_word @ rest \<and>
          length ys = 4 \<and> list_all is_digit ys \<and>
          (length ns = 1 \<or> length ns = 2) \<and> list_all is_digit ns \<and>
          suf \<in> set ordinal_suffixes \<and> y = py_int ys \<and> q = py_int ns)) \<and>
   ((\<forall>t. quarter_to_tuple s \<noteq> Inr t) \<longrightarrow>
      quarter_to_tuple s = Inl (ValueError (''Invalid quarter format: '' @ s))) \<and>
   (spec_valid_label s \<longrightarrow>
      quarter_to_tuple s = Inr (py_int (take 4 s), py_int [s ! 5]) \<and>
      py_int [s ! 5] \<in> {1, 2, 3, 4})"
proof (intro conjI impI)
  show "quarter_to_tuple s = Inr (y, q) \<longleftrightarrow>
      (\<exists>ys ns suf rest.
          s = ys @ '' '' @ ns @ suf @ quarter_word @ rest \<and>
          length ys = 4 \<and> list_all is_digit ys \<and>
          (length ns = 1 \<or> length ns = 2) \<and> list_all is_digit ns \<and>
          suf \<in> set ordinal_suffixes \<and> y = py_int ys \<and> q = py_int ns)"
    unfolding quarter_to_tuple_Inr re_match_quarter_Some by blast
next
  assume "\<forall>t. quarter_to_tuple s \<noteq> Inr t"
  then show "quarter_to_tuple s = Inl (ValueError (''Invalid quarter format: '' @ s))"
    by (rule quarter_to_tuple_Inl)
next
  assume "spec_valid_label s"
  from spec_valid_label_parses[OF this]
  show "quarter_to_tuple s = Inr (py_int (take 4 s), py_int [s ! 5])" by blast
next
  assume "spec_valid_label s"
  from spec_valid_label_parses[OF this]
  show "py_int [s ! 5] \<in> {1, 2, 3, 4}" by blast
qed

theorem quarter_to_tuple_prefix_match_witness:
  "spec_valid_label ''2024 1st quarter'' \<and>
   quarter_to_tuple ''2024 1st quarter'' = Inr (2024, 1) \<and>
   (\<exists>ys ns suf rest.
       ''2024 13th quarter [note 1]'' = ys @ '' '' @ ns @ suf @ quarter_word @ rest \<and>
       length ys = 4 \<and> list_all is_digit ys \<and>
       (length ns = 1 \<or> length ns = 2) \<and> list_all is_digit ns \<and>
       suf \<in> set ordinal_suffixes \<and> (2024::int) = py_int ys \<and> (13::int) = py_int ns) \<and>
   quarter_to_tuple ''invalid quarter''
     = Inl (ValueError ''Invalid quarter format: invalid quarter'')"
proof -
  have v: "spec_valid_label ''2024 1st quarter''"
    by (simp add: spec_valid_label_def ordinal_suffixes_def quarter_word_def is_digit_def)
  have p: "quarter_to_tuple ''2024 13th quarter [note 1]'' = Inr (2024, 13)"
    by (simp add: quarter_to_tuple_def re_match_quarter_def match_quarter_digits_def
        match_suffix_quarter_def ordinal_suffixes_def is_digit_def py_int_def digit_val_def
        quarter_word_def)
  from quarter_to_tuple_prefix_match[of "''2024 1st quarter''" 0 0] v
  have "quarter_to_tuple ''2024 1st quarter'' = Inr (2024, 1)"
    by (simp add: py_int_def digit_val_def)
  moreover from quarter_to_tuple_prefix_match[of "''2024 13th quarter [note 1]''" 2024 13] p
  have "\<exists>ys ns suf rest.
       ''2024 13th quarter [note 1]'' = ys @ '' '' @ ns @ suf @ quarter_word @ rest \<and>
       length ys = 4 \<and> list_all is_digit ys \<and>
       (length ns = 1 \<or> length ns = 2) \<and> list_all is_digit ns \<and>
       suf \<in> set ordinal_suffixes \<and> (2024::int) = py_int ys \<and> (13::int) = py_int ns"
    by blast
  moreover have "\<forall>t. quarter_to_tuple ''invalid quarter'' \<noteq> Inr t"
    by (simp add: quarter_to_tuple_def re_match_quarter_def is_digit_def)
  with quarter_to_tuple_prefix_match[of "''invalid quarter''" 0 0]
  have "quarter_to_tuple ''invalid quarter''
     = Inl (ValueError ''Invalid quarter format: invalid quarter'')"
    by simp
  ultimately show ?thesis using v by blast
qed

text \<open>
  The claim as stated fails: a two-digit quarter number is accepted although the label is
  not one of the valid labels.
\<close>

theorem quarter_to_tuple_counterexample:
  "quarter_to_tuple ''2024 13th quarter'' = Inr (2024, 13) \<and>
   \<not> spec_valid_label ''2024 13th quarter''"
proof
  show "quarter_to_tuple ''2024 13th quarter'' = Inr (2024, 13)"
    by (simp add: quarter_to_tuple_def re_match_quarter_def match_quarter_digits_def
        match_suffix_quarter_def ordinal_suffixes_def is_digit_def py_int_def digit_val_def
        quarter_word_def)
  show "\<not> spec_valid_label ''2024 13th quarter''"
    by (simp add: spec_valid_label_def ordinal_suffixes_def quarter_word_def)
qed

section \<open>Properties of rename\_columns\<close>

lemma is_digit_not_special:
  "is_digit c \<Longrightarrow> \<not> is_space c \<and> c \<noteq> CHR ''_'' \<and> c \<noteq> CHR 0x0A \<and> c \<noteq> CHR '' ''"
  by (auto simp: is_digit_def is_space_def)

lemma replace_underscore_newline_id:
  "CHR ''_'' \<notin> set s \<Longrightarrow> replace_underscore_newline s = s"
  by (induction s rule: replace_underscore_newline.induct) auto

lemma replace_char_id: "c \<notin> set s \<Longrightarrow> replace_char c d s = s"
  by (induction s) (auto simp: replace_char_def)

lemma py_strip_id:
  assumes "s \<noteq> []" "\<not> is_space (hd s)" "\<not> is_space (last s)"
  shows "py_strip s = s"
proof -
  have "dropWhile is_space s = s" using assms by (cases s) auto
  moreover have "dropWhile is_space (rev s) = rev s"
    using assms by (cases "rev s") (auto simp: last_rev[symmetric] hd_rev)
  ultimately show ?thesis by (simp add: py_strip_def)
qed

lemma py_split_no_sep: "c \<notin> set s \<Longrightarrow> py_split c s = [s]"
  by (induction s) auto


lemma py_isdigit_clean:
  assumes "py_isdigit y"
  shows "CHR ''_'' \<notin> set y" "CHR 0x0A \<notin> set y" "CHR '' '' \<notin> set y"
    "py_strip y = y"
proof -
  from assms have ne: "y \<noteq> []" and d: "\<forall>c \<in> set y. is_digit c"
    by (auto simp: py_isdigit_def list_all_iff)
  show "CHR ''_'' \<notin> set y" "CHR 0x0A \<notin> set y" "CHR '' '' \<notin> set y"
    using d is_digit_not_special by blast+
  have "\<not> is_space (hd y)" "\<not> is_space (last y)"
    using ne d is_digit_not_special by auto
  with ne show "py_strip y = y" by (rule py_strip_id)
qed

lemma new_col_name_digits: "py_isdigit c \<Longrightarrow> new_col_name c = c"
  using py_isdigit_clean[of c]
  by (simp add: new_col_name_def col_name_cleaned_def replace_underscore_newline_id
      replace_char_id py_split_no_sep)

lemma new_col_name_changed:
  assumes "new_col_name c \<noteq> c"
  shows "\<exists>year qn. new_col_name c = year @ qn \<and> py_isdigit year \<and>
           qn \<in> set [''01'', ''02'', ''03'', ''04''] \<and>
           2 \<le> length (py_split CHR '' '' (col_name_cleaned c)) \<and>
           year = py_strip (py_split CHR '' '' (col_name_cleaned c) ! 0) \<and>
           quarter_num (py_lower (py_strip (py_split CHR '' '' (col_name_cleaned c) ! 1))) = Some qn"
proof -
  let ?parts = "py_split CHR '' '' (col_name_cleaned c)"
  let ?year = "py_strip (?parts ! 0)"
  let ?q = "py_lower (py_strip (?parts ! 1))"
  from assms have len: "2 \<le> length ?parts"
    by (auto simp: new_col_name_def Let_def split: if_splits)
  with assms obtain qn where qn: "quarter_num ?q = Some qn"
    by (auto simp: new_col_name_def Let_def split: option.splits)
  with assms len have yd: "py_isdigit ?year"
    by (auto simp: new_col_name_def Let_def split: if_splits)
  from qn have "qn \<in> set [''01'', ''02'', ''03'', ''04'']"
    by (auto simp: quarter_num_def split: if_splits)
  moreover have "new_col_name c = ?year @ qn"
    using len qn yd by (simp add: new_col_name_def Let_def)
  ultimately show ?thesis using len qn yd by blast
qed

lemma py_isdigit_append:
  "py_isdigit y \<Longrightarrow> qn \<in> set [''01'', ''02'', ''03'', ''04''] \<Longrightarrow> py_isdigit (y @ qn)"
  by (auto simp: py_isdigit_def is_digit_def)

lemma new_col_name_idem: "new_col_name (new_col_name c) = new_col_name c"
proof (cases "new_col_name c = c")
  case True
  then show ?thesis by simp
next
  case False
  from new_col_name_changed[OF this] obtain year qn where
    "new_col_name c = year @ qn" "py_isdigit year" "qn \<in> set [''01'', ''02'', ''03'', ''04'']"
    by blast
  then show ?thesis using new_col_name_digits py_isdigit_append by metis
qed

lemma foldl_withColumnRenamed:
  assumes idem: "\<And>y. g (g y) = g y"
  shows "foldl (\<lambda>d (old_name, new_name). withColumnRenamed old_name new_name d) df
           (map (\<lambda>c. (c, g c)) cs) =
         df\<lparr>columns := map (\<lambda>x. if x \<in> set cs then g x else x) (columns df)\<rparr>"
proof (induction cs arbitrary: df)
  case Nil
  then show ?case by simp
next
  case (Cons c cs)
  let ?f = "\<lambda>d (old_name, new_name). withColumnRenamed old_name new_name d"
  let ?d = "withColumnRenamed c (g c) df"
  have m: "map ((\<lambda>x. if x \<in> set cs then g x else x) \<circ> (\<lambda>x. if x = c then g c else x)) (columns df)
      = map (\<lambda>x. if x \<in> set (c # cs) then g x else x) (columns df)"
    by (rule map_cong) (auto simp: idem)
  have "foldl ?f df (map (\<lambda>c. (c, g c)) (c # cs)) = foldl ?f ?d (map (\<lambda>c. (c, g c)) cs)"
    by simp
  also have "\<dots> = ?d\<lparr>columns := map (\<lambda>x. if x \<in> set cs then g x else x) (columns ?d)\<rparr>"
    by (rule Cons.IH)
  also have "\<dots> = df\<lparr>columns := map (\<lambda>x. if x \<in> set (c # cs) then g x else x) (columns df)\<rparr>"
    using m by (simp add: withColumnRenamed_def)
  finally show ?case .
qed

lemma rename_columns_frame:
  "rename_columns df = df\<lparr>columns := map new_col_name (columns df)\<rparr>"
proof -
  have "map (\<lambda>x. if x \<in> set (columns df) then new_col_name x else x) (columns df)
        = map new_col_name (columns df)"
    by (rule map_cong) auto
  then show ?thesis
    unfolding rename_columns_def renamed_cols_def
    by (simp add: foldl_withColumnRenamed[where g = new_col_name, OF new_col_name_idem])
qed








section \<open>Properties of the link selection\<close>

lemma xlsx_contains_xls: "sublist ''.xlsx'' h \<Longrightarrow> sublist ''.xls'' h"
proof -
  assume "sublist ''.xlsx'' h"
  moreover have "sublist ''.xls'' ''.xlsx''" by (simp add: sublist_code)
  ultimately show ?thesis unfolding sublist_def by (metis append.assoc)
qed

lemma find_excel_link_Some:
  "find_excel_link links = Some l \<longleftrightarrow>
     (\<exists>pre post. links = pre @ l # post \<and> sublist ''.xls'' l \<and>
                 (\<forall>h \<in> set pre. \<not> sublist ''.xls'' h))"
proof (induction links)
  case Nil
  then show ?case by simp
next
  case (Cons h hs)
  show ?case
  proof (cases "sublist ''.xls'' h")
    case True
    have "h = l \<longleftrightarrow> (\<exists>pre post. h # hs = pre @ l # post \<and> sublist ''.xls'' l \<and>
                 (\<forall>h \<in> set pre. \<not> sublist ''.xls'' h))" (is "_ \<longleftrightarrow> ?R")
    proof
      assume "h = l"
      then have "h # hs = [] @ l # hs \<and> sublist ''.xls'' l \<and> (\<forall>h \<in> set []. \<not> sublist ''.xls'' h)"
        using True by simp
      then show ?R by blast
    next
      assume ?R
      then obtain pre post where p: "h # hs = pre @ l # post" "\<forall>h \<in> set pre. \<not> sublist ''.xls'' h"
        by blast
      show "h = l"
      proof (cases pre)
        case Nil
        with p show ?thesis by simp
      next
        case (Cons a list)
        with p True show ?thesis by auto
      qed
    qed
    with True show ?thesis by simp
  next
    case False
    then have nx: "\<not> sublist ''.xlsx'' h" using xlsx_contains_xls by blast
    have "(\<exists>pre post. hs = pre @ l # post \<and> sublist ''.xls'' l \<and> (\<forall>h \<in> set pre. \<not> sublist ''.xls'' h))
      \<longleftrightarrow> (\<exists>pre post. h # hs = pre @ l # post \<and> sublist ''.xls'' l \<and> (\<forall>h \<in> set pre. \<not> sublist ''.xls'' h))"
      (is "?A \<longleftrightarrow> ?B")
    proof
      assume ?A
      then obtain pre post where "hs = pre @ l # post" "sublist ''.xls'' l" "\<forall>h \<in> set pre. \<not> sublist ''.xls'' h"
        by blast
      then have "h # hs = (h # pre) @ l # post \<and> sublist ''.xls'' l \<and> (\<forall>x \<in> set (h # pre). \<not> sublist ''.xls'' x)"
        using False by simp
      then show ?B by blast
    next
      assume ?B
      then obtain pre post where p: "h # hs = pre @ l # post" "sublist ''.xls'' l" "\<forall>h \<in> set pre. \<not> sublist ''.xls'' h"
        by blast
      show ?A
      proof (cases pre)
        case Nil
        with p False show ?thesis by simp
      next
        case (Cons a list)
        with p have "hs = list @ l # post" "\<forall>h \<in> set list. \<not> sublist ''.xls'' h" by auto
        with p(2) show ?thesis by blast
      qed
    qed
    with False nx Cons.IH show ?thesis by simp
  qed
qed

lemma find_excel_link_None:
  "find_excel_link links = None \<longleftrightarrow> (\<forall>h \<in> set links. \<not> sublist ''.xls'' h)"
  by (induction links) (auto dest: xlsx_contains_xls)

lemma excel_suffix_contains:
  "suffix ''.xls'' l \<or> suffix ''.xlsx'' l \<Longrightarrow> sublist ''.xls'' l"
  using xlsx_contains_xls suffix_imp_sublist by blast

text \<open>
  Claim C6, as amended.  After a phrase match the scanner takes the first link, in
  document order, whose target contains the text \<open>.xls\<close> anywhere: every link ending in
  \<open>.xls\<close> or \<open>.xlsx\<close> qualifies, and so does a link with \<open>.xls\<close> in the middle.  When no
  link contains it, none is selected.  A selected link that starts with \<open>http\<close> is used
  as it is; any other has \<open>https://www.gov.uk\<close> put in front of it.
\<close>

theorem find_excel_link_first_containing:
  "(find_excel_link links = Some l \<longleftrightarrow>
      (\<exists>pre post. links = pre @ l # post \<and> sublist ''.xls'' l \<and>
                  (\<forall>h \<in> set pre. \<not> sublist ''.xls'' h))) \<and>
   (find_excel_link links = None \<longleftrightarrow> (\<forall>h \<in> set links. \<not> sublist ''.xls'' h)) \<and>
   (suffix ''.xls'' l \<or> suffix ''.xlsx'' l \<longrightarrow> sublist ''.xls'' l) \<and>
   (prefix ''http'' l \<longrightarrow> absolute_link l = l) \<and>
   (\<not> prefix ''http'' l \<longrightarrow> absolute_link l = ''https://www.gov.uk'' @ l)"
  using find_excel_link_Some[of links l] find_excel_link_None[of links] excel_suffix_contains[of l]
  by (simp add: absolute_link_def)

theorem find_excel_link_first_containing_witness:
  "find_excel_link [''/about'', ''/files/data.xlsx'', ''/files/old.xls''] = Some ''/files/data.xlsx'' \<and>
   suffix ''.xlsx'' ''/files/data.xlsx'' \<and> sublist ''.xls'' ''/files/data.xlsx'' \<and>
   \<not> prefix ''http'' ''/files/data.xlsx'' \<and>
   absolute_link ''/files/data.xlsx'' = ''https://www.gov.uk/files/data.xlsx'' \<and>
   prefix ''http'' ''https://example.org/a.xls'' \<and>
   absolute_link ''https://example.org/a.xls'' = ''https://example.org/a.xls'' \<and>
   find_excel_link [''/about'', ''/contact''] = None"
proof -
  let ?links = "[''/about'', ''/files/data.xlsx'', ''/files/old.xls'']"
  let ?l = "''/files/data.xlsx''"
  note t = find_excel_link_first_containing[of ?links ?l]
  note u = find_excel_link_first_containing[of "[''/about'', ''/contact'']" "''https://example.org/a.xls''"]
  have s: "suffix ''.xlsx'' ?l" by code_simp
  have n: "\<not> sublist ''.xls'' ''/about''" "\<not> sublist ''.xls'' ''/contact''" by code_simp+
  have p: "\<not> prefix ''http'' ?l" "prefix ''http'' ''https://example.org/a.xls''" by simp_all
  from t[THEN conjunct2, THEN conjunct2, THEN conjunct1] s
  have c: "sublist ''.xls'' ?l" by blast
  have "?links = [''/about''] @ ?l # [''/files/old.xls''] \<and> sublist ''.xls'' ?l \<and>
        (\<forall>h \<in> set [''/about'']. \<not> sublist ''.xls'' h)"
    using c n by simp
  then have "\<exists>pre post. ?links = pre @ ?l # post \<and> sublist ''.xls'' ?l \<and>
        (\<forall>h \<in> set pre. \<not> sublist ''.xls'' h)" by blast
  with t[THEN conjunct1] have f: "find_excel_link ?links = Some ?l" by blast
  from t[THEN conjunct2, THEN conjunct2, THEN conjunct2, THEN conjunct2] p(1)
  have a: "absolute_link ?l = ''https://www.gov.uk/files/data.xlsx''" by simp
  from u[THEN conjunct2, THEN conjunct2, THEN conjunct2, THEN conjunct1] p(2)
  have b: "absolute_link ''https://example.org/a.xls'' = ''https://example.org/a.xls''" by blast
  from u[THEN conjunct2, THEN conjunct1] n
  have e: "find_excel_link [''/about'', ''/contact''] = None" by simp
  from f s c p a b e show ?thesis by blast
qed

text \<open>
  The claim as stated fails: the link selected here ends in \<open>.html\<close>, and the link that
  does end in \<open>.xlsx\<close> comes after it.
\<close>

theorem find_excel_link_counterexample:
  "find_excel_link [''/files/report.xls.html'', ''/files/data.xlsx'']
     = Some ''/files/report.xls.html'' \<and>
   \<not> suffix ''.xls'' ''/files/report.xls.html'' \<and>
   \<not> suffix ''.xlsx'' ''/files/report.xls.html'' \<and>
   suffix ''.xlsx'' ''/files/data.xlsx''"
  by code_simp

section \<open>Properties of the download and its retries\<close>

lemma body_request_fails:
  assumes "request_fails (http w (length (requested w)) url)"
  shows "\<exists>e. is_RequestException e \<and>
           download_excel_file_body url p f w = (Inl e, w\<lparr>requested := requested w @ [url]\<rparr>)"
  using assms
  by (cases "http w (length (requested w)) url")
     (auto simp: download_excel_file_body_def requests_get_def)

lemma body_cp_fails:
  assumes "http w (length (requested w)) url = Response status content"
    and "\<not> (400 \<le> status \<and> status < 600)"
    and "\<not> dbfs_writable w (p @ ''/'' @ f)"
  shows "download_excel_file_body url p f w =
           (Inl (OtherError ''dbutils.fs.cp''),
            w\<lparr>requested := requested w @ [url],
              local_fs := (local_fs w)(''/tmp/'' @ f \<mapsto> content)\<rparr>)"
  using assms by (simp add: download_excel_file_body_def requests_get_def)

lemma body_succeeds:
  assumes "http w (length (requested w)) url = Response status content"
    and "\<not> (400 \<le> status \<and> status < 600)"
    and "dbfs_writable w (p @ ''/'' @ f)"
  shows "download_excel_file_body url p f w =
           (Inr (),
            w\<lparr>requested := requested w @ [url],
              local_fs := (local_fs w)(''/tmp/'' @ f \<mapsto> content),
              dbfs := (dbfs w)(p @ ''/'' @ f \<mapsto> content)\<rparr>)"
  using assms by (simp add: download_excel_file_body_def requests_get_def)

lemma retry_loop_step_fail:
  assumes "retries < max_retries" "func w = (Inl e, w')" "is_RequestException e"
  shows "retry_loop max_retries backoff func retries d w =
         retry_loop max_retries backoff func (Suc retries) (d * backoff) (w'\<lparr>slept := slept w' @ [d]\<rparr>)"
  using assms by (subst retry_loop.simps) simp

lemma retry_loop_step_other:
  assumes "retries < max_retries" "func w = (r, w')" "\<forall>e. r = Inl e \<longrightarrow> \<not> is_RequestException e"
  shows "retry_loop max_retries backoff func retries d w = (r, w')"
  using assms by (subst retry_loop.simps) (auto split: sum.splits)

lemma retry_loop_done:
  "retry_loop max_retries backoff func max_retries d w = (Inl (RetriesExhausted max_retries), w)"
  by (subst retry_loop.simps) simp

lemma download_persistent_failure:
  assumes "\<forall>k<3. request_fails (http w (length (requested w) + k) url)"
  shows "download_excel_file url p f w =
         (Inl (RetriesExhausted 3),
          w\<lparr>requested := requested w @ [url, url, url], slept := slept w @ [5, 10, 20]\<rparr>)"
proof -
  let ?body = "download_excel_file_body url p f"
  let ?w1 = "w\<lparr>requested := requested w @ [url]\<rparr>"
  let ?w1s = "?w1\<lparr>slept := slept ?w1 @ [5]\<rparr>"
  let ?w2 = "?w1s\<lparr>requested := requested ?w1s @ [url]\<rparr>"
  let ?w2s = "?w2\<lparr>slept := slept ?w2 @ [10]\<rparr>"
  let ?w3 = "?w2s\<lparr>requested := requested ?w2s @ [url]\<rparr>"
  let ?w3s = "?w3\<lparr>slept := slept ?w3 @ [20]\<rparr>"
  from assms have f0: "request_fails (http w (length (requested w)) url)"
    and f1: "request_fails (http ?w1s (length (requested ?w1s)) url)"
    and f2: "request_fails (http ?w2s (length (requested ?w2s)) url)"
    by (auto dest: spec[of _ 0] spec[of _ 1] spec[of _ 2] simp: eval_nat_numeral)
  from body_request_fails[OF f0, of p f] obtain e0 where
    e0: "is_RequestException e0" "?body w = (Inl e0, ?w1)" by blast
  from body_request_fails[OF f1, of p f] obtain e1 where
    e1: "is_RequestException e1" "?body ?w1s = (Inl e1, ?w2)" by blast
  from body_request_fails[OF f2, of p f] obtain e2 where
    e2: "is_RequestException e2" "?body ?w2s = (Inl e2, ?w3)" by blast
  have "download_excel_file url p f w = retry_loop 3 2 ?body 0 5 w"
    by (simp add: download_excel_file_def retry_request_def)
  also have "\<dots> = retry_loop 3 2 ?body 1 10 ?w1s"
    using retry_loop_step_fail[of 0 3 ?body w e0 ?w1 2 5] e0 by simp
  also have "\<dots> = retry_loop 3 2 ?body 2 20 ?w2s"
    using retry_loop_step_fail[of 1 3 ?body ?w1s e1 ?w2 2 10] e1 by (simp add: numeral_2_eq_2)
  also have "\<dots> = retry_loop 3 2 ?body 3 40 ?w3s"
    using retry_loop_step_fail[of 2 3 ?body ?w2s e2 ?w3 2 20] e2 by (simp add: numeral_3_eq_3 numeral_2_eq_2)
  also have "\<dots> = (Inl (RetriesExhausted 3), ?w3s)"
    by (rule retry_loop_done)
  also have "?w3s = w\<lparr>requested := requested w @ [url, url, url], slept := slept w @ [5, 10, 20]\<rparr>"
    by simp
  finally show ?thesis .
qed

lemma download_first_attempt:
  assumes "download_excel_file_body url p f w = (r, w')"
    and "\<forall>e. r = Inl e \<longrightarrow> \<not> is_RequestException e"
  shows "download_excel_file url p f w = (r, w')"
  unfolding download_excel_file_def retry_request_def
  using assms by (intro retry_loop_step_other) simp_all

text \<open>
  Claim C3, as amended.  The retry policy of the download fires on every
  \<^verbatim>\<open>RequestException\<close>, and the \<^verbatim>\<open>HTTPError\<close> raised for a 4xx or 5xx status
  is one of them: when each of three attempts ends in a connection failure or in an
  error status, the download makes exactly three requests, sleeps 5, 10 and 20 seconds
  and then raises the terminal error.  An exception that is not a
  \<^verbatim>\<open>RequestException\<close>, here the copy to DBFS failing, is not retried and surfaces at
  once; a first attempt that succeeds returns without any sleep.
\<close>

theorem download_retries_request_exceptions:
  "((\<forall>k<3. request_fails (http w (length (requested w) + k) url)) \<longrightarrow>
      download_excel_file url p f w =
        (Inl (RetriesExhausted 3),
         w\<lparr>requested := requested w @ [url, url, url], slept := slept w @ [5, 10, 20]\<rparr>)) \<and>
   (http w (length (requested w)) url = Response status content \<and>
    \<not> (400 \<le> status \<and> status < 600) \<and> \<not> dbfs_writable w (p @ ''/'' @ f) \<longrightarrow>
      download_excel_file url p f w =
        (Inl (OtherError ''dbutils.fs.cp''),
         w\<lparr>requested := requested w @ [url],
           local_fs := (local_fs w)(''/tmp/'' @ f \<mapsto> content)\<rparr>)) \<and>
   (http w (length (requested w)) url = Response status content \<and>
    \<not> (400 \<le> status \<and> status < 600) \<and> dbfs_writable w (p @ ''/'' @ f) \<longrightarrow>
      download_excel_file url p f w =
        (Inr (),
         w\<lparr>requested := requested w @ [url],
           local_fs := (local_fs w)(''/tmp/'' @ f \<mapsto> content),
           dbfs := (dbfs w)(p @ ''/'' @ f \<mapsto> content)\<rparr>))"
proof (intro conjI impI)
  assume "\<forall>k<3. request_fails (http w (length (requested w) + k) url)"
  then show "download_excel_file url p f w =
        (Inl (RetriesExhausted 3),
         w\<lparr>requested := requested w @ [url, url, url], slept := slept w @ [5, 10, 20]\<rparr>)"
    by (rule download_persistent_failure)
next
  assume a: "http w (length (requested w)) url = Response status content \<and>
    \<not> (400 \<le> status \<and> status < 600) \<and> \<not> dbfs_writable w (p @ ''/'' @ f)"
  then have "download_excel_file_body url p f w =
        (Inl (OtherError ''dbutils.fs.cp''),
         w\<lparr>requested := requested w @ [url],
           local_fs := (local_fs w)(''/tmp/'' @ f \<mapsto> content)\<rparr>)"
    using body_cp_fails by blast
  then show "download_excel_file url p f w =
        (Inl (OtherError ''dbutils.fs.cp''),
         w\<lparr>requested := requested w @ [url],
           local_fs := (local_fs w)(''/tmp/'' @ f \<mapsto> content)\<rparr>)"
    by (rule download_first_attempt) simp
next
  assume a: "http w (length (requested w)) url = Response status content \<and>
    \<not> (400 \<le> status \<and> status < 600) \<and> dbfs_writable w (p @ ''/'' @ f)"
  then have "download_excel_file_body url p f w =
        (Inr (),
         w\<lparr>requested := requested w @ [url],
           local_fs := (local_fs w)(''/tmp/'' @ f \<mapsto> content),
           dbfs := (dbfs w)(p @ ''/'' @ f \<mapsto> content)\<rparr>)"
    using body_succeeds by blast
  then show "download_excel_file url p f w =
        (Inr (),
         w\<lparr>requested := requested w @ [url],
           local_fs := (local_fs w)(''/tmp/'' @ f \<mapsto> content),
           dbfs := (dbfs w)(p @ ''/'' @ f \<mapsto> content)\<rparr>)"
    by (rule download_first_attempt) simp
qed

theorem download_retries_request_exceptions_witness:
  "request_fails (http world_offline (length (requested world_offline) + 0) ''u'') \<and>
   request_fails (http world_offline (length (requested world_offline) + 1) ''u'') \<and>
   request_fails (http world_offline (length (requested world_offline) + 2) ''u'') \<and>
   fst (download_excel_file ''u'' ''/FileStore'' ''a.xlsx'' world_offline)
     = Inl (RetriesExhausted 3) \<and>
   slept (snd (download_excel_file ''u'' ''/FileStore'' ''a.xlsx'' world_offline))
     = [5, 10, 20] \<and>
   \<not> dbfs_writable world_readonly (''/FileStore'' @ ''/'' @ ''a.xlsx'') \<and>
   fst (download_excel_file ''u'' ''/FileStore'' ''a.xlsx'' world_readonly)
     = Inl (OtherError ''dbutils.fs.cp'') \<and>
   requested (snd (download_excel_file ''u'' ''/FileStore'' ''a.xlsx'' world_readonly))
     = [''u''] \<and>
   dbfs_writable (world_serving ''workbook'') (''/FileStore'' @ ''/'' @ ''a.xlsx'') \<and>
   fst (download_excel_file ''u'' ''/FileStore'' ''a.xlsx'' (world_serving ''workbook''))
     = Inr () \<and>
   dbfs (snd (download_excel_file ''u'' ''/FileStore'' ''a.xlsx'' (world_serving ''workbook'')))
     ''/FileStore/a.xlsx'' = Some ''workbook''"
proof -
  note t1 = download_retries_request_exceptions[of world_offline "''u''"
      "''/FileStore''" "''a.xlsx''" 200 "''workbook''", THEN conjunct1]
  note t2 = download_retries_request_exceptions[of world_readonly "''u''"
      "''/FileStore''" "''a.xlsx''" 200 "''workbook''", THEN conjunct2, THEN conjunct1]
  note t3 = download_retries_request_exceptions[of "world_serving ''workbook''" "''u''"
      "''/FileStore''" "''a.xlsx''" 200 "''workbook''", THEN conjunct2, THEN conjunct2]
  have h1: "\<forall>k<3. request_fails (http world_offline (length (requested world_offline) + k) ''u'')"
    by (simp add: world_offline_def)
  have h2: "http world_readonly (length (requested world_readonly)) ''u'' = Response 200 ''workbook'' \<and>
      \<not> (400 \<le> (200::nat) \<and> (200::nat) < 600) \<and>
      \<not> dbfs_writable world_readonly (''/FileStore'' @ ''/'' @ ''a.xlsx'')"
    by (simp add: world_readonly_def)
  have h3: "http (world_serving ''workbook'') (length (requested (world_serving ''workbook''))) ''u''
        = Response 200 ''workbook'' \<and>
      \<not> (400 \<le> (200::nat) \<and> (200::nat) < 600) \<and>
      dbfs_writable (world_serving ''workbook'') (''/FileStore'' @ ''/'' @ ''a.xlsx'')"
    by (simp add: world_serving_def)
  from t1 h1 have r1: "download_excel_file ''u'' ''/FileStore'' ''a.xlsx'' world_offline =
        (Inl (RetriesExhausted 3),
         world_offline\<lparr>requested := requested world_offline @ [''u'', ''u'', ''u''],
           slept := slept world_offline @ [5, 10, 20]\<rparr>)" by blast
  from t2 h2 have r2: "download_excel_file ''u'' ''/FileStore'' ''a.xlsx'' world_readonly =
        (Inl (OtherError ''dbutils.fs.cp''),
         world_readonly\<lparr>requested := requested world_readonly @ [''u''],
           local_fs := (local_fs world_readonly)(''/tmp/'' @ ''a.xlsx'' \<mapsto> ''workbook'')\<rparr>)"
    by blast
  from t3 h3 have r3: "download_excel_file ''u'' ''/FileStore'' ''a.xlsx'' (world_serving ''workbook'') =
        (Inr (),
         (world_serving ''workbook'')\<lparr>requested := requested (world_serving ''workbook'') @ [''u''],
           local_fs := (local_fs (world_serving ''workbook''))(''/tmp/'' @ ''a.xlsx'' \<mapsto> ''workbook''),
           dbfs := (dbfs (world_serving ''workbook''))(''/FileStore'' @ ''/'' @ ''a.xlsx'' \<mapsto> ''workbook'')\<rparr>)"
    by blast
  have "slept world_offline = []" "requested world_readonly = []"
    by (simp_all add: world_offline_def world_readonly_def)
  moreover have "request_fails (http world_offline (length (requested world_offline) + 0) ''u'')"
    "request_fails (http world_offline (length (requested world_offline) + 1) ''u'')"
    "request_fails (http world_offline (length (requested world_offline) + 2) ''u'')"
    by (simp_all add: world_offline_def)
  ultimately show ?thesis
    using h2 h3 by (simp add: r1 r2 r3)
qed

text \<open>
  The claim as stated fails: against a server that answers 404, the download does not
  surface the \<^verbatim>\<open>HTTPError\<close> at once but asks three times, sleeping in between, and
  ends in the error of the exhausted retries.
\<close>

theorem download_http_error_counterexample:
  "http world_404 0 ''https://www.gov.uk/a.xlsx'' = Response 404 ''Not Found'' \<and>
   fst (download_excel_file ''https://www.gov.uk/a.xlsx'' ''/FileStore'' ''a.xlsx'' world_404)
     = Inl (RetriesExhausted 3) \<and>
   fst (download_excel_file ''https://www.gov.uk/a.xlsx'' ''/FileStore'' ''a.xlsx'' world_404)
     \<noteq> Inl (HTTPError 404) \<and>
   length (requested (snd (download_excel_file ''https://www.gov.uk/a.xlsx'' ''/FileStore''
     ''a.xlsx'' world_404))) = 3 \<and>
   slept (snd (download_excel_file ''https://www.gov.uk/a.xlsx'' ''/FileStore'' ''a.xlsx''
     world_404)) = [5, 10, 20]"
proof -
  have "\<forall>k<3. request_fails (http world_404 (length (requested world_404) + k)
          ''https://www.gov.uk/a.xlsx'')"
    by (simp add: world_404_def)
  from download_persistent_failure[OF this, of "''/FileStore''" "''a.xlsx''"]
  show ?thesis by (simp add: world_404_def)
qed


section \<open>Properties of the quarter gate\<close>

lemma re_sub_step_plain:
  "\<not> is_space c \<Longrightarrow> c \<noteq> CHR ''['' \<Longrightarrow> re_sub_brackets (c # s) = c # re_sub_brackets s"
  by (simp add: bracket_match_def)

lemma re_sub_step_space:
  "is_space c \<Longrightarrow> \<not> is_space d \<Longrightarrow> d \<noteq> CHR ''['' \<Longrightarrow>
   re_sub_brackets (c # d # s) = c # re_sub_brackets (d # s)"
  by (simp add: bracket_match_def)

lemma re_sub_plain_prefix:
  "\<forall>c \<in> set p. \<not> is_space c \<and> c \<noteq> CHR ''['' \<Longrightarrow>
   re_sub_brackets (p @ r) = p @ re_sub_brackets r"
  by (induction p) (simp_all add: re_sub_step_plain del: re_sub_brackets.simps)

lemma is_digit_plain: "is_digit c \<Longrightarrow> \<not> is_space c \<and> c \<noteq> CHR ''[''"
  by (auto simp: is_digit_def is_space_def)

lemma suffix_plain:
  "suf \<in> set ordinal_suffixes \<Longrightarrow> \<forall>c \<in> set suf. \<not> is_space c \<and> c \<noteq> CHR ''[''"
  by (auto simp: ordinal_suffixes_def is_space_def)

lemma re_sub_quarter_word:
  "re_sub_brackets (quarter_word @ r) = quarter_word @ re_sub_brackets r"
proof -
  have "re_sub_brackets (CHR '' '' # CHR ''q'' # (''uarter'' @ r))
        = CHR '' '' # re_sub_brackets (CHR ''q'' # (''uarter'' @ r))"
    by (rule re_sub_step_space) (simp_all add: is_space_def)
  moreover have "re_sub_brackets (''quarter'' @ r) = ''quarter'' @ re_sub_brackets r"
    by (rule re_sub_plain_prefix) (simp add: is_space_def)
  ultimately show ?thesis by (simp add: quarter_word_def)
qed

lemma re_sub_keeps_label:
  assumes ys: "list_all is_digit ys" and ns: "list_all is_digit ns" "ns \<noteq> []"
    and suf: "suf \<in> set ordinal_suffixes"
  shows "re_sub_brackets (ys @ '' '' @ ns @ suf @ quarter_word @ rest)
         = ys @ '' '' @ ns @ suf @ quarter_word @ re_sub_brackets rest"
proof -
  obtain n ns' where n: "ns = n # ns'" using ns(2) by (cases ns) auto
  have pn: "\<forall>c \<in> set (ns @ suf). \<not> is_space c \<and> c \<noteq> CHR ''[''"
    using ns(1) suffix_plain[OF suf] is_digit_plain by (auto simp: list_all_iff)
  have py: "\<forall>c \<in> set ys. \<not> is_space c \<and> c \<noteq> CHR ''[''"
    using ys is_digit_plain by (auto simp: list_all_iff)
  have "re_sub_brackets (ys @ ('' '' @ ns @ suf @ quarter_word @ rest))
        = ys @ re_sub_brackets ('' '' @ ns @ suf @ quarter_word @ rest)"
    by (rule re_sub_plain_prefix[OF py])
  also have "re_sub_brackets ('' '' @ ns @ suf @ quarter_word @ rest)
        = CHR '' '' # re_sub_brackets (n # (ns' @ suf @ quarter_word @ rest))"
    using re_sub_step_space[of "CHR '' ''" n] pn n by (simp add: is_space_def)
  also have "n # (ns' @ suf @ quarter_word @ rest) = (ns @ suf) @ (quarter_word @ rest)"
    using n by simp
  also have "re_sub_brackets ((ns @ suf) @ (quarter_word @ rest))
        = (ns @ suf) @ re_sub_brackets (quarter_word @ rest)"
    by (rule re_sub_plain_prefix[OF pn])
  also have "re_sub_brackets (quarter_word @ rest) = quarter_word @ re_sub_brackets rest"
    by (rule re_sub_quarter_word)
  finally show ?thesis by simp
qed

lemma re_match_quarter_re_sub:
  assumes "re_match_quarter c = Some (ys, ns)"
  shows "re_match_quarter (re_sub_brackets c) = Some (ys, ns)"
proof -
  from assms obtain suf rest where
    l: "length ys = 4" "list_all is_digit ys" "length ns = 1 \<or> length ns = 2"
       "list_all is_digit ns" "suf \<in> set ordinal_suffixes"
    and c: "c = ys @ '' '' @ ns @ suf @ quarter_word @ rest"
    unfolding re_match_quarter_Some by blast
  from l(3) have "ns \<noteq> []" by auto
  from re_sub_keeps_label[OF l(2) l(4) this l(5), of rest]
  have "re_sub_brackets c = ys @ '' '' @ ns @ suf @ quarter_word @ re_sub_brackets rest"
    using c by simp
  then have "\<exists>suf rest. suf \<in> set ordinal_suffixes \<and>
      re_sub_brackets c = ys @ '' '' @ ns @ suf @ quarter_word @ rest"
    using l(5) by blast
  then show ?thesis
    unfolding re_match_quarter_Some using l by blast
qed

lemma quarter_key_eq:
  assumes "re_match_quarter c \<noteq> None"
  shows "quarter_to_tuple (re_sub_brackets c) = quarter_to_tuple c"
    and "\<exists>t. quarter_to_tuple c = Inr t"
proof -
  from assms obtain ys ns where m: "re_match_quarter c = Some (ys, ns)" by auto
  from re_match_quarter_re_sub[OF m] m
  show "quarter_to_tuple (re_sub_brackets c) = quarter_to_tuple c"
    by (simp add: quarter_to_tuple_def)
  from m show "\<exists>t. quarter_to_tuple c = Inr t"
    by (simp add: quarter_to_tuple_def)
qed

lemma tuple_gt_asym: "tuple_gt a b \<Longrightarrow> \<not> tuple_gt b a"
  by (cases a; cases b) auto

lemma tuple_not_gt_trans: "\<not> tuple_gt a b \<Longrightarrow> \<not> tuple_gt b c \<Longrightarrow> \<not> tuple_gt a c"
  by (cases a; cases b; cases c) auto

lemma tuple_not_gt_refl: "\<not> tuple_gt a a"
  by (cases a) auto

lemma max_loop_result:
  assumes "max_loop key m mk xs = Inr r" "key m = Inr mk"
  shows "(r = m \<or> r \<in> set xs) \<and>
         (\<exists>rk. key r = Inr rk \<and> \<not> tuple_gt mk rk \<and>
               (\<forall>x \<in> set xs. \<exists>k. key x = Inr k \<and> \<not> tuple_gt k rk))"
  using assms
proof (induction xs arbitrary: m mk)
  case Nil
  then show ?case by (simp add: tuple_not_gt_refl)
next
  case (Cons x xs)
  from Cons.prems(1) obtain k where k: "key x = Inr k"
    by (cases "key x") auto
  show ?case
  proof (cases "tuple_gt k mk")
    case True
    with Cons.prems k have "max_loop key x k xs = Inr r" by simp
    from Cons.IH[OF this k] obtain rk where
      r: "r = x \<or> r \<in> set xs" "key r = Inr rk" "\<not> tuple_gt k rk"
         "\<forall>x \<in> set xs. \<exists>k. key x = Inr k \<and> \<not> tuple_gt k rk"
      by blast
    have "\<not> tuple_gt mk k" using True by (rule tuple_gt_asym)
    then have "\<not> tuple_gt mk rk" using r(3) by (rule tuple_not_gt_trans)
    moreover have "\<forall>y \<in> set (x # xs). \<exists>k'. key y = Inr k' \<and> \<not> tuple_gt k' rk"
      using k r(3) r(4) by (metis set_ConsD)
    moreover have "r = m \<or> r \<in> set (x # xs)" using r(1) by (metis list.set_intros)
    ultimately show ?thesis using r(2) by blast
  next
    case False
    with Cons.prems k have "max_loop key m mk xs = Inr r" by simp
    from Cons.IH[OF this Cons.prems(2)] obtain rk where
      r: "r = m \<or> r \<in> set xs" "key r = Inr rk" "\<not> tuple_gt mk rk"
         "\<forall>x \<in> set xs. \<exists>k. key x = Inr k \<and> \<not> tuple_gt k rk"
      by blast
    have "\<not> tuple_gt k rk" using False r(3) by (rule tuple_not_gt_trans)
    with k r(4) have "\<forall>y \<in> set (x # xs). \<exists>k'. key y = Inr k' \<and> \<not> tuple_gt k' rk"
      by (metis set_ConsD)
    moreover have "r = m \<or> r \<in> set (x # xs)" using r(1) by (metis list.set_intros(2))
    ultimately show ?thesis using r(2) r(3) by blast
  qed
qed

lemma py_max_key_result:
  assumes "py_max_key key xs = Inr r"
  shows "r \<in> set xs \<and>
         (\<exists>rk. key r = Inr rk \<and> (\<forall>x \<in> set xs. \<exists>k. key x = Inr k \<and> \<not> tuple_gt k rk))"
proof (cases xs)
  case Nil
  with assms show ?thesis by simp
next
  case (Cons x xs')
  with assms obtain k where k: "key x = Inr k" "max_loop key x k xs' = Inr r"
    by (cases "key x") auto
  from max_loop_result[OF k(2) k(1)] obtain rk where
    r: "r = x \<or> r \<in> set xs'" "key r = Inr rk" "\<not> tuple_gt k rk"
       "\<forall>y \<in> set xs'. \<exists>k'. key y = Inr k' \<and> \<not> tuple_gt k' rk"
    by blast
  have "\<forall>y \<in> set (x # xs'). \<exists>k'. key y = Inr k' \<and> \<not> tuple_gt k' rk"
    using k(1) r(3) r(4) by (metis set_ConsD)
  moreover have "r \<in> set (x # xs')" using r(1) by (metis list.set_intros)
  ultimately show ?thesis using r(2) Cons by blast
qed

lemma latest_quarter_in_file_result:
  assumes "latest_quarter_in_file cols = Inr l"
  shows "l \<in> set (quarter_columns cols) \<and>
         (\<exists>t. quarter_to_tuple l = Inr t \<and>
              (\<forall>c \<in> set (quarter_columns cols).
                  \<exists>t'. quarter_to_tuple c = Inr t' \<and> \<not> tuple_gt t' t))"
proof -
  let ?key = "\<lambda>x. quarter_to_tuple (re_sub_brackets x)"
  have eq: "?key c = quarter_to_tuple c" if "c \<in> set (quarter_columns cols)" for c
    using that quarter_key_eq(1) by (simp add: quarter_columns_def)
  from py_max_key_result[OF assms[unfolded latest_quarter_in_file_def]]
  obtain rk where r: "l \<in> set (quarter_columns cols)" "?key l = Inr rk"
    "\<forall>x \<in> set (quarter_columns cols). \<exists>k. ?key x = Inr k \<and> \<not> tuple_gt k rk"
    by blast
  from r(2) eq[OF r(1)] have "quarter_to_tuple l = Inr rk" by simp
  moreover from r(3) eq
  have "\<forall>c \<in> set (quarter_columns cols). \<exists>t'. quarter_to_tuple c = Inr t' \<and> \<not> tuple_gt t' rk"
    by auto
  ultimately show ?thesis using r(1) by blast
qed

lemma latest_quarter_in_file_empty:
  "quarter_columns cols = [] \<Longrightarrow>
   latest_quarter_in_file cols = Inl (ValueError ''max() arg is an empty sequence'')"
  by (simp add: latest_quarter_in_file_def)

lemma check_cases:
  assumes "check_excel_for_latest_quarter lib url latest save_path fn w = ((b, q), w')"
  shows "(b \<and> (\<exists>cols w1 t t0.
                 load_quarter_headers lib url fn w = (Inr cols, w1) \<and>
                 latest_quarter_in_file cols = Inr q \<and>
                 quarter_to_tuple q = Inr t \<and>
                 quarter_to_tuple (py_strip latest) = Inr t0 \<and> tuple_gt t t0 \<and>
                 os_remove (''/tmp/'' @ fn) w1 = (Inr (), w'))) \<or>
         (\<not> b \<and> q = latest)"
  using assms
  by (auto simp: check_excel_for_latest_quarter_def Let_def
      split: prod.splits sum.splits if_splits)

lemma download_example:
  "download_excel_file url ''/tmp/test.xlsx'' ''test.xlsx'' (world_serving content) =
     (Inr (),
      (world_serving content)\<lparr>requested := [url],
         local_fs := (local_fs (world_serving content))(''/tmp/test.xlsx'' \<mapsto> content),
         dbfs := (dbfs (world_serving content))(''/tmp/test.xlsx/test.xlsx'' \<mapsto> content)\<rparr>)"
proof -
  have "download_excel_file_body url ''/tmp/test.xlsx'' ''test.xlsx'' (world_serving content) =
     (Inr (),
      (world_serving content)\<lparr>requested := [url],
         local_fs := (local_fs (world_serving content))(''/tmp/test.xlsx'' \<mapsto> content),
         dbfs := (dbfs (world_serving content))(''/tmp/test.xlsx/test.xlsx'' \<mapsto> content)\<rparr>)"
    using body_succeeds[of "world_serving content" url 200 content "''/tmp/test.xlsx''" "''test.xlsx''"]
    by (simp add: world_serving_def)
  then show ?thesis by (rule download_first_attempt) simp
qed

lemma load_example_release:
  "load_quarter_headers example_lib url ''test.xlsx'' (world_serving ''release'') =
     (Inr [''Column1'', ''2023 1st quarter'', ''2024 2nd quarter''],
      (world_serving ''release'')\<lparr>requested := [url],
         local_fs := (local_fs (world_serving ''release''))(''/tmp/test.xlsx'' \<mapsto> ''release''),
         dbfs := (dbfs (world_serving ''release''))(''/tmp/test.xlsx/test.xlsx'' \<mapsto> ''release'')\<rparr>)"
proof -
  have n: "map (\<lambda>c. replace_char (CHR 0x0A) CHR '' '' (py_strip c))
             [''Column1'', ''2023 1st quarter'', ''2024 2nd quarter'']
           = [''Column1'', ''2023 1st quarter'', ''2024 2nd quarter'']"
    by code_simp
  show ?thesis
    using download_example[of url "''release''"] n
    by (simp add: load_quarter_headers_def example_lib_def)
qed

lemma latest_example_release:
  "latest_quarter_in_file [''Column1'', ''2023 1st quarter'', ''2024 2nd quarter'']
     = Inr ''2024 2nd quarter''"
  "quarter_to_tuple ''2024 2nd quarter'' = Inr (2024, 2)"
  "quarter_to_tuple (py_strip ''2023 1st quarter'') = Inr (2023, 1)"
  by code_simp+

lemma check_example_release:
  "fst (check_excel_for_latest_quarter example_lib url ''2023 1st quarter'' ''/tmp'' ''test.xlsx''
     (world_serving ''release'')) = (True, ''2024 2nd quarter'')"
  by (simp add: check_excel_for_latest_quarter_def load_example_release latest_example_release
      os_remove_def)

text \<open>
  Claim C5.  The quarter gate answers \<open>True\<close> only when the sheet was downloaded and read, the
  label it returns is a quarter column of the sheet whose tuple no other quarter column
  exceeds, and this tuple is strictly greater than the tuple of \<open>last_known\<close>.  In every
  other case, among them every failure of the download, of the read and of the parse,
  it answers \<open>(False, last_known)\<close>; so it answers \<open>False\<close> whenever no quarter column of
  the sheet exceeds \<open>last_known\<close>.
\<close>

theorem gate_newer_only_when_greater:
  assumes "check_excel_for_latest_quarter lib url latest save_path fn w = ((b, q), w')"
  shows "(b \<longrightarrow>
           (\<exists>cols w1 t t0.
               load_quarter_headers lib url fn w = (Inr cols, w1) \<and>
               q \<in> set (quarter_columns cols) \<and> quarter_to_tuple q = Inr t \<and>
               (\<forall>c \<in> set (quarter_columns cols).
                   \<exists>t'. quarter_to_tuple c = Inr t' \<and> \<not> tuple_gt t' t) \<and>
               quarter_to_tuple (py_strip latest) = Inr t0 \<and> tuple_gt t t0)) \<and>
         (\<not> b \<longrightarrow> q = latest) \<and>
         ((\<exists>e w1. load_quarter_headers lib url fn w = (Inl e, w1)) \<longrightarrow>
            (b, q) = (False, latest)) \<and>
         ((\<exists>cols w1. load_quarter_headers lib url fn w = (Inr cols, w1) \<and>
              (\<forall>c \<in> set (quarter_columns cols). \<forall>t' t0.
                  quarter_to_tuple c = Inr t' \<and> quarter_to_tuple (py_strip latest) = Inr t0
                  \<longrightarrow> \<not> tuple_gt t' t0)) \<longrightarrow>
            (b, q) = (False, latest))"
proof -
  have pos: "\<exists>cols w1 t t0.
               load_quarter_headers lib url fn w = (Inr cols, w1) \<and>
               q \<in> set (quarter_columns cols) \<and> quarter_to_tuple q = Inr t \<and>
               (\<forall>c \<in> set (quarter_columns cols).
                   \<exists>t'. quarter_to_tuple c = Inr t' \<and> \<not> tuple_gt t' t) \<and>
               quarter_to_tuple (py_strip latest) = Inr t0 \<and> tuple_gt t t0" if b
  proof -
    from check_cases[OF assms] that obtain cols w1 t t0 where
      c: "load_quarter_headers lib url fn w = (Inr cols, w1)"
         "latest_quarter_in_file cols = Inr q" "quarter_to_tuple q = Inr t"
         "quarter_to_tuple (py_strip latest) = Inr t0" "tuple_gt t t0"
      by blast
    from latest_quarter_in_file_result[OF c(2)] c(3)
    have "q \<in> set (quarter_columns cols)"
      "\<forall>c \<in> set (quarter_columns cols). \<exists>t'. quarter_to_tuple c = Inr t' \<and> \<not> tuple_gt t' t"
      by auto
    with c show ?thesis by blast
  qed
  have neg: "q = latest" if "\<not> b"
    using check_cases[OF assms] that by blast
  have err: "\<not> b" if "\<exists>e w1. load_quarter_headers lib url fn w = (Inl e, w1)"
  proof
    assume b
    from pos[OF this] that show False by auto
  qed
  have le: "\<not> b" if "\<exists>cols w1. load_quarter_headers lib url fn w = (Inr cols, w1) \<and>
              (\<forall>c \<in> set (quarter_columns cols). \<forall>t' t0.
                  quarter_to_tuple c = Inr t' \<and> quarter_to_tuple (py_strip latest) = Inr t0
                  \<longrightarrow> \<not> tuple_gt t' t0)"
  proof
    assume b
    from pos[OF this] obtain cols w1 t t0 where
      p: "load_quarter_headers lib url fn w = (Inr cols, w1)"
         "q \<in> set (quarter_columns cols)" "quarter_to_tuple q = Inr t"
         "quarter_to_tuple (py_strip latest) = Inr t0" "tuple_gt t t0"
      by blast
    from that p(1) have "\<forall>c \<in> set (quarter_columns cols). \<forall>t' t0.
                  quarter_to_tuple c = Inr t' \<and> quarter_to_tuple (py_strip latest) = Inr t0
                  \<longrightarrow> \<not> tuple_gt t' t0"
      by auto
    with p(2-5) show False by blast
  qed
  from pos neg err le show ?thesis by auto
qed

theorem gate_newer_only_when_greater_witness:
  "fst (check_excel_for_latest_quarter example_lib ''u'' ''2023 1st quarter'' ''/tmp''
          ''test.xlsx'' (world_serving ''release'')) = (True, ''2024 2nd quarter'') \<and>
   (\<exists>t t0. quarter_to_tuple ''2024 2nd quarter'' = Inr t \<and>
            quarter_to_tuple (py_strip ''2023 1st quarter'') = Inr t0 \<and> tuple_gt t t0) \<and>
   fst (check_excel_for_latest_quarter example_lib ''u'' ''2024 2nd quarter'' ''/tmp''
          ''test.xlsx'' (world_serving ''release'')) = (False, ''2024 2nd quarter'') \<and>
   fst (check_excel_for_latest_quarter example_lib ''u'' ''2023 1st quarter'' ''/tmp''
          ''test.xlsx'' world_offline) = (False, ''2023 1st quarter'')"
proof -
  let ?run = "\<lambda>latest w. check_excel_for_latest_quarter example_lib ''u'' latest ''/tmp''
                 ''test.xlsx'' w"
  have r1: "?run ''2023 1st quarter'' (world_serving ''release'')
      = ((True, ''2024 2nd quarter''), snd (?run ''2023 1st quarter'' (world_serving ''release'')))"
    using check_example_release[of "''u''"] by (metis prod.collapse)
  from gate_newer_only_when_greater[OF r1]
  have "\<exists>cols w1 t t0.
          load_quarter_headers example_lib ''u'' ''test.xlsx'' (world_serving ''release'')
            = (Inr cols, w1) \<and>
          ''2024 2nd quarter'' \<in> set (quarter_columns cols) \<and>
          quarter_to_tuple ''2024 2nd quarter'' = Inr t \<and>
          (\<forall>c \<in> set (quarter_columns cols).
              \<exists>t'. quarter_to_tuple c = Inr t' \<and> \<not> tuple_gt t' t) \<and>
          quarter_to_tuple (py_strip ''2023 1st quarter'') = Inr t0 \<and> tuple_gt t t0"
    by blast
  then have a: "\<exists>t t0. quarter_to_tuple ''2024 2nd quarter'' = Inr t \<and>
            quarter_to_tuple (py_strip ''2023 1st quarter'') = Inr t0 \<and> tuple_gt t t0"
    by blast
  have l2: "quarter_to_tuple (py_strip ''2024 2nd quarter'') = Inr (2024, 2)"
    by code_simp
  have qc: "quarter_columns [''Column1'', ''2023 1st quarter'', ''2024 2nd quarter'']
              = [''2023 1st quarter'', ''2024 2nd quarter'']"
    "quarter_to_tuple ''2023 1st quarter'' = Inr (2023, 1)"
    by code_simp+
  have r2: "?run ''2024 2nd quarter'' (world_serving ''release'')
      = ((fst (fst (?run ''2024 2nd quarter'' (world_serving ''release''))),
          snd (fst (?run ''2024 2nd quarter'' (world_serving ''release'')))),
         snd (?run ''2024 2nd quarter'' (world_serving ''release'')))"
    by simp
  have "\<exists>cols w1.
          load_quarter_headers example_lib ''u'' ''test.xlsx'' (world_serving ''release'')
            = (Inr cols, w1) \<and>
          (\<forall>c \<in> set (quarter_columns cols). \<forall>t' t0.
              quarter_to_tuple c = Inr t' \<and>
              quarter_to_tuple (py_strip ''2024 2nd quarter'') = Inr t0
              \<longrightarrow> \<not> tuple_gt t' t0)"
    by (simp add: load_example_release qc l2 latest_example_release(2))
  with gate_newer_only_when_greater[OF r2]
  have b: "fst (?run ''2024 2nd quarter'' (world_serving ''release''))
             = (False, ''2024 2nd quarter'')"
    by (metis prod.collapse)
  have off: "download_excel_file ''u'' ''/tmp/test.xlsx'' ''test.xlsx'' world_offline =
         (Inl (RetriesExhausted 3),
          world_offline\<lparr>requested := requested world_offline @ [''u'', ''u'', ''u''],
            slept := slept world_offline @ [5, 10, 20]\<rparr>)"
    by (rule download_persistent_failure) (simp add: world_offline_def)
  have r3: "?run ''2023 1st quarter'' world_offline
      = ((fst (fst (?run ''2023 1st quarter'' world_offline)),
          snd (fst (?run ''2023 1st quarter'' world_offline))),
         snd (?run ''2023 1st quarter'' world_offline))"
    by simp
  have "\<exists>e w1. load_quarter_headers example_lib ''u'' ''test.xlsx'' world_offline = (Inl e, w1)"
    by (simp add: load_quarter_headers_def off)
  with gate_newer_only_when_greater[OF r3]
  have c: "fst (?run ''2023 1st quarter'' world_offline) = (False, ''2023 1st quarter'')"
    by (metis prod.collapse)
  from check_example_release[of "''u''"] a b c show ?thesis by blast
qed

text \<open>
  Claim C10.  When no header of the inspected sheet matches the quarter pattern, taking
  the maximum of the empty list of quarter columns raises \<open>ValueError\<close> inside
  \<open>check_excel_for_latest_quarter\<close>, which catches it and returns \<open>(False, last_known)\<close>.
\<close>

theorem gate_no_quarter_columns:
  assumes "load_quarter_headers lib url fn w = (Inr cols, w1)"
    and "\<forall>c \<in> set cols. re_match_quarter c = None"
  shows "quarter_columns cols = [] \<and>
         latest_quarter_in_file cols = Inl (ValueError ''max() arg is an empty sequence'') \<and>
         check_excel_for_latest_quarter lib url latest save_path fn w = ((False, latest), w1)"
proof -
  from assms(2) have e: "quarter_columns cols = []"
    by (simp add: quarter_columns_def filter_empty_conv)
  then have m: "latest_quarter_in_file cols = Inl (ValueError ''max() arg is an empty sequence'')"
    by (rule latest_quarter_in_file_empty)
  have "check_excel_for_latest_quarter lib url latest save_path fn w = ((False, latest), w1)"
    by (simp add: check_excel_for_latest_quarter_def assms(1) m)
  with e m show ?thesis by blast
qed

lemma load_example_blank:
  "load_quarter_headers example_lib url ''test.xlsx'' (world_serving ''blank'') =
     (Inr [''Column1'', ''Notes''],
      (world_serving ''blank'')\<lparr>requested := [url],
         local_fs := (local_fs (world_serving ''blank''))(''/tmp/test.xlsx'' \<mapsto> ''blank''),
         dbfs := (dbfs (world_serving ''blank''))(''/tmp/test.xlsx/test.xlsx'' \<mapsto> ''blank'')\<rparr>)"
proof -
  have n: "map (\<lambda>c. replace_char (CHR 0x0A) CHR '' '' (py_strip c)) [''Column1'', ''Notes'']
           = [''Column1'', ''Notes'']"
    by code_simp
  show ?thesis
    using download_example[of url "''blank''"] n
    by (simp add: load_quarter_headers_def example_lib_def)
qed

theorem gate_no_quarter_columns_witness:
  "re_match_quarter ''Column1'' = None \<and> re_match_quarter ''Notes'' = None \<and>
   fst (load_quarter_headers example_lib ''u'' ''test.xlsx'' (world_serving ''blank''))
     = Inr [''Column1'', ''Notes''] \<and>
   fst (check_excel_for_latest_quarter example_lib ''u'' ''1984 1st quarter'' ''/tmp''
          ''test.xlsx'' (world_serving ''blank'')) = (False, ''1984 1st quarter'')"
proof -
  have n: "\<forall>c \<in> set [''Column1'', ''Notes'']. re_match_quarter c = None"
    by (simp add: re_match_quarter_def is_digit_def)
  from gate_no_quarter_columns[OF load_example_blank n, of "''u''" "''1984 1st quarter''" "''/tmp''"]
  have "fst (check_excel_for_latest_quarter example_lib ''u'' ''1984 1st quarter'' ''/tmp''
          ''test.xlsx'' (world_serving ''blank'')) = (False, ''1984 1st quarter'')"
    by simp
  moreover have "re_match_quarter ''Column1'' = None" "re_match_quarter ''Notes'' = None"
    using n by simp_all
  moreover have "fst (load_quarter_headers example_lib ''u'' ''test.xlsx'' (world_serving ''blank''))
     = Inr [''Column1'', ''Notes'']"
    by (simp add: load_example_blank)
  ultimately show ?thesis by blast
qed

text \<open>
  Claim C2 at a failing input.  The server answers with bytes that are not a workbook:
  the download writes the scratch copy, the read raises, and the function returns from its
  \<^verbatim>\<open>except\<close> clause with the scratch copy still in place.  On the branch that finds
  a newer quarter the same file is removed.
\<close>

theorem gate_error_path_keeps_scratch_copy:
  "fst (check_excel_for_latest_quarter example_lib ''u'' ''2023 1st quarter'' ''/tmp''
          ''test.xlsx'' (world_serving ''garbage'')) = (False, ''2023 1st quarter'') \<and>
   local_fs (snd (check_excel_for_latest_quarter example_lib ''u'' ''2023 1st quarter'' ''/tmp''
          ''test.xlsx'' (world_serving ''garbage''))) ''/tmp/test.xlsx'' = Some ''garbage'' \<and>
   local_fs (snd (check_excel_for_latest_quarter example_lib ''u'' ''2023 1st quarter'' ''/tmp''
          ''test.xlsx'' (world_serving ''release''))) ''/tmp/test.xlsx'' = None"
proof -
  have "load_quarter_headers example_lib ''u'' ''test.xlsx'' (world_serving ''garbage'') =
     (Inl (OtherError ''not a workbook''),
      (world_serving ''garbage'')\<lparr>requested := [''u''],
         local_fs := (local_fs (world_serving ''garbage''))(''/tmp/test.xlsx'' \<mapsto> ''garbage''),
         dbfs := (dbfs (world_serving ''garbage''))(''/tmp/test.xlsx/test.xlsx'' \<mapsto> ''garbage'')\<rparr>)"
    using download_example[of "''u''" "''garbage''"]
    by (simp add: load_quarter_headers_def example_lib_def)
  then have g: "check_excel_for_latest_quarter example_lib ''u'' ''2023 1st quarter'' ''/tmp''
          ''test.xlsx'' (world_serving ''garbage'') =
     ((False, ''2023 1st quarter''),
      (world_serving ''garbage'')\<lparr>requested := [''u''],
         local_fs := (local_fs (world_serving ''garbage''))(''/tmp/test.xlsx'' \<mapsto> ''garbage''),
         dbfs := (dbfs (world_serving ''garbage''))(''/tmp/test.xlsx/test.xlsx'' \<mapsto> ''garbage'')\<rparr>)"
    by (simp add: check_excel_for_latest_quarter_def)
  have r: "local_fs (snd (check_excel_for_latest_quarter example_lib ''u'' ''2023 1st quarter''
          ''/tmp'' ''test.xlsx'' (world_serving ''release''))) ''/tmp/test.xlsx'' = None"
    by (simp add: check_excel_for_latest_quarter_def load_example_release
        latest_example_release os_remove_def)
  from g r show ?thesis by simp
qed

section \<open>Properties of the transformation stage\<close>

lemma unpivot_rows:
  assumes "unpivot df qcs = Inr u"
  shows "length (rows u) = length (rows df) * length qcs"
    and "columns u = [''Category'', ''Sub_Category'', ''Quarter'', ''Quantity'']"
    and "qcs \<noteq> []"
proof -
  from assms have u: "u = \<lparr>columns = [''Category'', ''Sub_Category'', ''Quarter'', ''Quantity''],
             rows = concat (map (\<lambda>r.
                       map (\<lambda>c. [lookup (columns df) r ''Category'',
                                 lookup (columns df) r ''Sub_Category'',
                                 Str c, lookup (columns df) r c])
                         qcs)
                     (rows df))\<rparr>" and ne: "qcs \<noteq> []"
    by (auto simp: unpivot_def split: if_splits)
  show "length (rows u) = length (rows df) * length qcs"
    by (simp add: u length_concat comp_def sum_list_triv)
  show "columns u = [''Category'', ''Sub_Category'', ''Quarter'', ''Quantity'']"
    by (simp add: u)
  show "qcs \<noteq> []" by (rule ne)
qed

lemma bind_Inr: "bind m f = Inr y \<longleftrightarrow> (\<exists>x. m = Inr x \<and> f x = Inr y)"
  by (cases m) (auto simp: bind_def)

lemma transformation_Inr:
  assumes "transformation E df_quarter file_name today = Inr r"
  shows "\<exists>summed_df unioned.
           summed E (indigenous_rows E (spark_df r)) = Inr summed_df \<and>
           unionByName (spark_df r) summed_df = Inr unioned \<and>
           final_df r = drop_superseded E unioned \<and>
           df_renamed r = rename_columns (final_df r) \<and>
           quarter_cols r = digit_columns (df_renamed r) \<and>
           unpivot (df_renamed r) (quarter_cols r) = Inr (df_unpivot r) \<and>
           finalDF r = withColumn ''ProcessedDate'' (\<lambda>i col. Str today)
                         (withColumn ''FileName'' (\<lambda>i col. Str file_name) (df_unpivot r)) \<and>
           csv_written r = spark_df r"
  using assms unfolding transformation_def bind_Inr Let_def
  by auto

lemma ex_step1: "select_underscored (create_spark_df example_engine example_sheet) = Inr ex_loaded"
  by code_simp

lemma ex_step2: "clean_category example_engine (rename_Column1 ex_loaded) = Inr ex_cleaned"
  by code_simp

lemma ex_step3: "add_sub_category example_engine ex_cleaned = Inr ex_sub"
  by code_simp

lemma ex_step4: "update_category example_engine ex_sub = Inr ex_spark_df"
  by code_simp

lemma ex_step5: "summed example_engine (indigenous_rows example_engine ex_spark_df) = Inr ex_summed"
  by code_simp

lemma ex_step6:
  "bind (unionByName ex_spark_df ex_summed) (\<lambda>u. Inr (drop_superseded example_engine u))
     = Inr ex_final_df"
  by code_simp

lemma ex_step7:
  "digit_columns (rename_columns ex_final_df) = [''202401'', ''202402'']"
  by code_simp

lemma ex_step8:
  "unpivot (rename_columns ex_final_df) [''202401'', ''202402''] = Inr ex_unpivot"
  by code_simp

lemma ex_step9:
  "withColumn ''ProcessedDate'' (\<lambda>i col. Str ''03/11/2026'')
     (withColumn ''FileName'' (\<lambda>i col. Str ''ET_3.1.xlsx'') ex_unpivot) = ex_finalDF"
  by code_simp

lemma example_run:
  "transformation example_engine example_sheet ''ET_3.1.xlsx'' ''03/11/2026'' =
     Inr ex_run"
proof -
  from ex_step6 obtain u where u: "unionByName ex_spark_df ex_summed = Inr u"
    "drop_superseded example_engine u = ex_final_df"
    by (auto simp: bind_def split: sum.splits)
  show ?thesis
    unfolding transformation_def ex_run_def prepare_def classify_def
    by (simp add: bind_def ex_step1 ex_step2 ex_step3 ex_step4 ex_step5 u ex_step7 ex_step8
        ex_step9)
qed

text \<open>
  Claim C9.  Whenever a run gets through the unpivot step, the number of long rows is the
  number of rows of \<open>final_df\<close>, the table after the aggregation and the filter,
  multiplied by the number of quarter columns, which are the all-digit column names of
  the renamed table; the two columns added afterwards do not change the count.
\<close>

theorem unpivot_row_count:
  assumes "transformation E df_quarter file_name today = Inr r"
  shows "length (rows (df_unpivot r)) = length (rows (final_df r)) * length (quarter_cols r) \<and>
         quarter_cols r = filter py_isdigit (map new_col_name (columns (final_df r))) \<and>
         length (rows (finalDF r)) = length (rows (df_unpivot r))"
proof -
  from transformation_Inr[OF assms] have
    ren: "df_renamed r = rename_columns (final_df r)"
    and qc: "quarter_cols r = digit_columns (df_renamed r)"
    and un: "unpivot (df_renamed r) (quarter_cols r) = Inr (df_unpivot r)"
    and fin: "finalDF r = withColumn ''ProcessedDate'' (\<lambda>i col. Str today)
                         (withColumn ''FileName'' (\<lambda>i col. Str file_name) (df_unpivot r))"
    by blast+
  have "rows (df_renamed r) = rows (final_df r)"
    "columns (df_renamed r) = map new_col_name (columns (final_df r))"
    by (simp_all add: ren rename_columns_frame)
  moreover note unpivot_rows(1)[OF un]
  moreover have "length (rows (finalDF r)) = length (rows (df_unpivot r))"
    by (simp add: fin withColumn_def)
  ultimately show ?thesis by (simp add: qc digit_columns_def)
qed

theorem unpivot_row_count_witness:
  "transformation example_engine example_sheet ''ET_3.1.xlsx'' ''03/11/2026'' = Inr ex_run \<and>
   length (rows (df_unpivot ex_run)) = length (rows (final_df ex_run)) * length (quarter_cols ex_run) \<and>
   length (rows (df_unpivot ex_run)) = 6 \<and> length (rows (final_df ex_run)) = 3 \<and>
   quarter_cols ex_run = [''202401'', ''202402'']"
proof -
  from unpivot_row_count[OF example_run]
  have "length (rows (df_unpivot ex_run)) = length (rows (final_df ex_run)) * length (quarter_cols ex_run)"
    by blast
  moreover have "length (rows (df_unpivot ex_run)) = 6" "length (rows (final_df ex_run)) = 3"
    "quarter_cols ex_run = [''202401'', ''202402'']"
    by (simp_all add: ex_run_def ex_unpivot_def ex_final_df_def)
  ultimately show ?thesis using example_run by blast
qed

text \<open>
  Claim C1 at a failing input.  On the example sheet the run computes the long table
  \<open>finalDF\<close> with its six columns and six rows, but the frame that is written as CSV is
  \<open>spark_df\<close>, the wide table with one row per row of the sheet and the columns
  \<open>Category\<close>, the two quarter columns under their old names, \<open>id\<close> and \<open>Sub_Category\<close>.
\<close>

theorem written_csv_is_wide_table:
  "transformation example_engine example_sheet ''ET_3.1.xlsx'' ''03/11/2026'' = Inr ex_run \<and>
   csv_written ex_run = spark_df ex_run \<and>
   csv_written ex_run \<noteq> finalDF ex_run \<and>
   columns (finalDF ex_run) =
     [''Category'', ''Sub_Category'', ''Quarter'', ''Quantity'', ''FileName'', ''ProcessedDate''] \<and>
   columns (csv_written ex_run) =
     [''Category'', ''2024_1st_quarter'', ''2024_2nd_quarter'', ''id'', ''Sub_Category''] \<and>
   length (rows (finalDF ex_run)) = 6 \<and>
   length (rows (csv_written ex_run)) = 4"
proof -
  have c: "columns (finalDF ex_run) =
     [''Category'', ''Sub_Category'', ''Quarter'', ''Quantity'', ''FileName'', ''ProcessedDate'']"
    "columns (csv_written ex_run) =
     [''Category'', ''2024_1st_quarter'', ''2024_2nd_quarter'', ''id'', ''Sub_Category'']"
    "length (rows (finalDF ex_run)) = 6" "length (rows (csv_written ex_run)) = 4"
    "csv_written ex_run = spark_df ex_run"
    by (simp_all add: ex_run_def ex_finalDF_def ex_spark_df_def ex_unpivot_def)
  then have "length (rows (csv_written ex_run)) \<noteq> length (rows (finalDF ex_run))" by simp
  then have "csv_written ex_run \<noteq> finalDF ex_run" by metis
  with c example_run show ?thesis by blast
qed

lemma lookup_missing: "n \<notin> set cs \<Longrightarrow> lookup cs r n = Null"
  by (induction cs r n rule: lookup.induct) auto

lemma lookup_replace:
  "length r = length cs \<Longrightarrow>
   lookup cs (map (\<lambda>(c, v). if c = name then x else v) (zip cs r)) n =
     (if n = name \<and> name \<in> set cs then x else lookup cs r n)"
  by (induction r cs rule: list_induct2) auto

lemma lookup_append:
  "length r = length cs \<Longrightarrow>
   lookup (cs @ [name]) (r @ [x]) n =
     (if n \<in> set cs then lookup cs r n else if n = name then x else Null)"
  by (induction r cs rule: list_induct2) auto

lemma withColumn_shape:
  "length (rows (withColumn name e df)) = length (rows df)"
  "wf_frame df \<Longrightarrow> wf_frame (withColumn name e df)"
  by (auto simp: withColumn_def wf_frame_def list_all_iff in_set_enumerate_eq)

lemma withColumn_row:
  assumes "k < length (rows df)"
  shows "rows (withColumn name e df) ! k =
           (if name \<in> set (columns df)
            then map (\<lambda>(c, v). if c = name then e k (lookup (columns df) (rows df ! k)) else v)
                   (zip (columns df) (rows df ! k))
            else rows df ! k @ [e k (lookup (columns df) (rows df ! k))])"
  using assms by (simp add: withColumn_def nth_enumerate_eq)

lemma withColumn_lookup:
  assumes wf: "wf_frame df" and k: "k < length (rows df)"
  shows "lookup (columns (withColumn name e df)) (rows (withColumn name e df) ! k) n =
           (if n = name then e k (lookup (columns df) (rows df ! k))
            else lookup (columns df) (rows df ! k) n)"
proof -
  from wf k have len: "length (rows df ! k) = length (columns df)"
    by (simp add: wf_frame_def list_all_length)
  show ?thesis
  proof (cases "name \<in> set (columns df)")
    case True
    then have "columns (withColumn name e df) = columns df" by (simp add: withColumn_def)
    then show ?thesis
      using True lookup_replace[OF len] by (simp add: withColumn_row[OF k])
  next
    case False
    then have "columns (withColumn name e df) = columns df @ [name]"
      by (simp add: withColumn_def)
    moreover have "lookup (columns df) (rows df ! k) n = Null" if "n \<notin> set (columns df)"
      using that by (rule lookup_missing)
    ultimately show ?thesis
      using False lookup_append[OF len, of name _ n]
      by (auto simp: withColumn_row[OF k])
  qed
qed

lemma cell_string_string_cell: "cell_string E (string_cell x) = x"
  by (cases x) auto

lemma classification_cells:
  assumes wf: "wf_frame df"
    and a: "add_sub_category E df = Inr df3"
    and u: "update_category E df3 = Inr df4"
    and k: "k < length (rows df)"
  shows "lookup (columns df4) (rows df4 ! k) ''Sub_Category'' =
           string_cell (sub_category_expr (lookup (columns df) (rows df ! k) ''id'')
                          (cell_string E (lookup (columns df) (rows df ! k) ''Category'')))"
    and "lookup (columns df4) (rows df4 ! k) ''Category'' =
           string_cell (category_expr
              (sub_category_expr (lookup (columns df) (rows df ! k) ''id'')
                 (cell_string E (lookup (columns df) (rows df ! k) ''Category'')))
              (cell_string E (lookup (columns df) (rows df ! k) ''Category'')))"
    and "lookup (columns df4) (rows df4 ! k) ''id'' = lookup (columns df) (rows df ! k) ''id''"
proof -
  let ?e1 = "\<lambda>i col. string_cell
                  (sub_category_expr (col ''id'') (cell_string E (col ''Category'')))"
  let ?e2 = "\<lambda>i col. string_cell
                  (category_expr (cell_string E (col ''Sub_Category''))
                     (cell_string E (col ''Category'')))"
  from a have df3: "df3 = withColumn ''Sub_Category'' ?e1 df"
    by (auto simp: add_sub_category_def split: if_splits)
  from u have df4: "df4 = withColumn ''Category'' ?e2 df3"
    by (auto simp: update_category_def split: if_splits)
  have wf3: "wf_frame df3" and k3: "k < length (rows df3)"
    using wf k by (simp_all add: df3 withColumn_shape)
  note l3 = withColumn_lookup[OF wf k, of "''Sub_Category''" ?e1, folded df3]
  note l4 = withColumn_lookup[OF wf3 k3, of "''Category''" ?e2, folded df4]
  show "lookup (columns df4) (rows df4 ! k) ''Sub_Category'' =
           string_cell (sub_category_expr (lookup (columns df) (rows df ! k) ''id'')
                          (cell_string E (lookup (columns df) (rows df ! k) ''Category'')))"
    by (simp add: l4 l3)
  show "lookup (columns df4) (rows df4 ! k) ''Category'' =
           string_cell (category_expr
              (sub_category_expr (lookup (columns df) (rows df ! k) ''id'')
                 (cell_string E (lookup (columns df) (rows df ! k) ''Category'')))
              (cell_string E (lookup (columns df) (rows df ! k) ''Category'')))"
    by (simp add: l4 l3 cell_string_string_cell)
  show "lookup (columns df4) (rows df4 ! k) ''id'' = lookup (columns df) (rows df ! k) ''id''"
    by (simp add: l4 l3)
qed

lemma sub_category_expr_Some:
  "sub_category_expr (Lng i) (Some c) = Some (spec_sub_category i c)"
  by (simp add: sub_category_expr_def spec_sub_category_def concat_ws_def)

lemma sub_category_expr_None:
  "sub_category_expr (Lng i) None =
     (if i \<in> {1, 2, 3} then Some ''Indigenous production''
      else if i \<in> {5, 6} then Some ''Imports''
      else if i \<in> {8, 9} then Some ''Exports''
      else None)"
  by (simp add: sub_category_expr_def concat_ws_def)

lemma category_expr_Some:
  "category_expr (Some (spec_sub_category i c)) (Some c) = Some (spec_category i c)"
  by (simp add: category_expr_def spec_category_def split_first_def)

lemma category_expr_None: "category_expr s None = None"
  by (cases s) (simp_all add: category_expr_def)

lemma spec_category_groups:
  "spec_category i c =
     (if i \<in> {1, 2, 3} then ''Indigenous production''
      else if i \<in> {5, 6} then ''Imports''
      else if i \<in> {8, 9} then ''Exports''
      else c)"
proof -
  have ne: "p @ c \<noteq> c" if "p \<noteq> []" for p :: string
    using that by (metis append_self_conv2)
  have tw: "takeWhile (\<lambda>x. x \<noteq> CHR ''_'') (p @ CHR ''_'' # c) = p" if "CHR ''_'' \<notin> set p" for p
    using that by (induction p) auto
  show ?thesis
    using ne[of "''Indigenous production_''"] ne[of "''Imports_''"] ne[of "''Exports_''"]
      tw[of "''Indigenous production''"] tw[of "''Imports''"] tw[of "''Exports''"]
    by (simp add: spec_category_def spec_sub_category_def)
qed

lemma ex_blank_steps:
  "prepare example_engine example_blank_sheet = Inr ex_blank_cleaned"
  "add_sub_category example_engine ex_blank_cleaned = Inr ex_blank_sub"
  "update_category example_engine ex_blank_sub = Inr ex_blank_spark_df"
  by code_simp+

lemma classify_Inr:
  "classify E df = Inr df4 \<longleftrightarrow>
     (\<exists>df3. add_sub_category E df = Inr df3 \<and> update_category E df3 = Inr df4)"
  by (simp add: classify_def bind_Inr)

text \<open>
  Claim C8, as amended.  For every row whose cleaned category is a text \<open>c\<close> and whose id
  is \<open>i\<close>, \<open>Sub_Category\<close> is \<open>c\<close> prefixed with \<open>Indigenous production_\<close> for ids 1, 2, 3,
  with \<open>Imports_\<close> for ids 5, 6, with \<open>Exports_\<close> for ids 8, 9, and \<open>c\<close> itself for every
  other id; \<open>Category\<close> is then overwritten with the text before the first separator of
  \<open>Sub_Category\<close> exactly where the two differ, which makes it the name of the group for
  the listed ids and leaves it alone elsewhere.  For a row whose category is null,
  \<open>Sub_Category\<close> is the bare name of the group for the listed ids and null otherwise,
  and \<open>Category\<close> stays null.
\<close>

theorem sub_category_by_row_id:
  assumes "wf_frame df" and "classify E df = Inr df4" and "k < length (rows df)"
    and "lookup (columns df) (rows df ! k) ''id'' = Lng i"
  shows "(lookup (columns df) (rows df ! k) ''Category'' = Str c \<longrightarrow>
            lookup (columns df4) (rows df4 ! k) ''Sub_Category'' = Str (spec_sub_category i c) \<and>
            lookup (columns df4) (rows df4 ! k) ''Category'' = Str (spec_category i c) \<and>
            spec_category i c =
              (if i \<in> {1, 2, 3} then ''Indigenous production''
               else if i \<in> {5, 6} then ''Imports''
               else if i \<in> {8, 9} then ''Exports''
               else c)) \<and>
         (lookup (columns df) (rows df ! k) ''Category'' = Null \<longrightarrow>
            lookup (columns df4) (rows df4 ! k) ''Sub_Category'' =
              (if i \<in> {1, 2, 3} then Str ''Indigenous production''
               else if i \<in> {5, 6} then Str ''Imports''
               else if i \<in> {8, 9} then Str ''Exports''
               else Null) \<and>
            lookup (columns df4) (rows df4 ! k) ''Category'' = Null)"
proof -
  from assms(2) obtain df3 where
    s: "add_sub_category E df = Inr df3" "update_category E df3 = Inr df4"
    unfolding classify_Inr by blast
  note cells = classification_cells[OF assms(1) s assms(3)]
  show ?thesis
  proof (intro conjI impI)
    assume c: "lookup (columns df) (rows df ! k) ''Category'' = Str c"
    show "lookup (columns df4) (rows df4 ! k) ''Sub_Category'' = Str (spec_sub_category i c)"
      by (simp add: cells(1) assms(4) c sub_category_expr_Some)
    show "lookup (columns df4) (rows df4 ! k) ''Category'' = Str (spec_category i c)"
      by (simp add: cells(2) assms(4) c sub_category_expr_Some category_expr_Some)
    show "spec_category i c =
              (if i \<in> {1, 2, 3} then ''Indigenous production''
               else if i \<in> {5, 6} then ''Imports''
               else if i \<in> {8, 9} then ''Exports''
               else c)"
      by (rule spec_category_groups)
  next
    assume n: "lookup (columns df) (rows df ! k) ''Category'' = Null"
    show "lookup (columns df4) (rows df4 ! k) ''Sub_Category'' =
              (if i \<in> {1, 2, 3} then Str ''Indigenous production''
               else if i \<in> {5, 6} then Str ''Imports''
               else if i \<in> {8, 9} then Str ''Exports''
               else Null)"
      by (simp add: cells(1) assms(4) n sub_category_expr_None)
    show "lookup (columns df4) (rows df4 ! k) ''Category'' = Null"
      by (simp add: cells(2) assms(4) n category_expr_None)
  qed
qed

theorem sub_category_by_row_id_witness:
  "wf_frame ex_cleaned \<and> classify example_engine ex_cleaned = Inr ex_spark_df \<and>
   lookup (columns ex_cleaned) (rows ex_cleaned ! 1) ''id'' = Lng 1 \<and>
   lookup (columns ex_cleaned) (rows ex_cleaned ! 1) ''Category'' = Str ''Crude oil'' \<and>
   lookup (columns ex_spark_df) (rows ex_spark_df ! 1) ''Sub_Category''
     = Str ''Indigenous production_Crude oil'' \<and>
   lookup (columns ex_spark_df) (rows ex_spark_df ! 1) ''Category''
     = Str ''Indigenous production'' \<and>
   wf_frame ex_blank_cleaned \<and>
   classify example_engine ex_blank_cleaned = Inr ex_blank_spark_df \<and>
   lookup (columns ex_blank_cleaned) (rows ex_blank_cleaned ! 1) ''id'' = Lng 1 \<and>
   lookup (columns ex_blank_cleaned) (rows ex_blank_cleaned ! 1) ''Category'' = Null \<and>
   lookup (columns ex_blank_spark_df) (rows ex_blank_spark_df ! 1) ''Sub_Category''
     = Str ''Indigenous production'' \<and>
   lookup (columns ex_blank_spark_df) (rows ex_blank_spark_df ! 1) ''Category'' = Null"
proof -
  have w: "wf_frame ex_cleaned" "wf_frame ex_blank_cleaned"
    by (simp_all add: wf_frame_def ex_cleaned_def ex_blank_cleaned_def)
  have c: "classify example_engine ex_cleaned = Inr ex_spark_df"
    "classify example_engine ex_blank_cleaned = Inr ex_blank_spark_df"
    by (simp_all add: classify_def bind_def ex_step3 ex_step4 ex_blank_steps)
  have k: "1 < length (rows ex_cleaned)" "1 < length (rows ex_blank_cleaned)"
    by (simp_all add: ex_cleaned_def ex_blank_cleaned_def)
  have i: "lookup (columns ex_cleaned) (rows ex_cleaned ! 1) ''id'' = Lng 1"
    "lookup (columns ex_blank_cleaned) (rows ex_blank_cleaned ! 1) ''id'' = Lng 1"
    by (simp_all add: ex_cleaned_def ex_blank_cleaned_def)
  have v: "lookup (columns ex_cleaned) (rows ex_cleaned ! 1) ''Category'' = Str ''Crude oil''"
    "lookup (columns ex_blank_cleaned) (rows ex_blank_cleaned ! 1) ''Category'' = Null"
    by (simp_all add: ex_cleaned_def ex_blank_cleaned_def)
  from sub_category_by_row_id[OF w(1) c(1) k(1) i(1), of "''Crude oil''"] v(1)
  have a: "lookup (columns ex_spark_df) (rows ex_spark_df ! 1) ''Sub_Category''
     = Str ''Indigenous production_Crude oil''"
    "lookup (columns ex_spark_df) (rows ex_spark_df ! 1) ''Category''
     = Str ''Indigenous production''"
    by (simp_all add: spec_sub_category_def)
  from sub_category_by_row_id[OF w(2) c(2) k(2) i(2), of "''''"] v(2)
  have b: "lookup (columns ex_blank_spark_df) (rows ex_blank_spark_df ! 1) ''Sub_Category''
     = Str ''Indigenous production''"
    "lookup (columns ex_blank_spark_df) (rows ex_blank_spark_df ! 1) ''Category'' = Null"
    by simp_all
  from w c i v a b show ?thesis by blast
qed

text \<open>
  The claim as stated fails on a row with a blank first cell: with id 1 its
  \<open>Sub_Category\<close> is the bare \<open>Indigenous production\<close>, not a prefixed category, and
  although it differs from \<open>Category\<close>, which is null, \<open>Category\<close> is not overwritten.
\<close>

theorem sub_category_null_counterexample:
  "prepare example_engine example_blank_sheet = Inr ex_blank_cleaned \<and>
   classify example_engine ex_blank_cleaned = Inr ex_blank_spark_df \<and>
   lookup (columns ex_blank_spark_df) (rows ex_blank_spark_df ! 1) ''id'' = Lng 1 \<and>
   lookup (columns ex_blank_spark_df) (rows ex_blank_spark_df ! 1) ''Sub_Category''
     = Str ''Indigenous production'' \<and>
   lookup (columns ex_blank_spark_df) (rows ex_blank_spark_df ! 1) ''Category'' = Null \<and>
   lookup (columns ex_blank_spark_df) (rows ex_blank_spark_df ! 1) ''Sub_Category''
     \<noteq> lookup (columns ex_blank_spark_df) (rows ex_blank_spark_df ! 1) ''Category''"
proof -
  have "classify example_engine ex_blank_cleaned = Inr ex_blank_spark_df"
    by (simp add: classify_def bind_def ex_blank_steps)
  then show ?thesis
    by (simp add: ex_blank_steps(1) ex_blank_spark_df_def)
qed

end
